theory Spec2Isabelle
  imports Main "HOL-Library.AList" "HOL-Library.Multiset"
begin

section \<open>Session lifecycle management: data model\<close>

text \<open>
  The development embeds the session subsystem of the backend: the in-memory store
  (\<^verbatim>\<open>app/session_store.py\<close>), the database store (\<^verbatim>\<open>app/db_session_store.py\<close>
  over the ORM class \<^verbatim>\<open>Session\<close> of \<^verbatim>\<open>app/models.py\<close>), the \<^verbatim>\<open>SecurityManager\<close>
  facade and the request guard of \<^verbatim>\<open>app/security.py\<close>, and the session handlers of
  \<^verbatim>\<open>app/routers/secure_auth.py\<close>.

  Conventions of the embedding.
  \<^item> A point in time is an integer number of seconds, without bound (the years 1 to
    9999 of \<^verbatim>\<open>datetime\<close> are not modelled); \<^verbatim>\<open>timedelta(minutes=m)\<close> is \<open>m * 60\<close>. Every operation receives the reading \<open>now\<close> of the clock; the several
    \<^verbatim>\<open>datetime.now()\<close> calls inside one operation all see that one reading, as does the
    database server default \<^verbatim>\<open>func.now()\<close>.
  \<^item> \<^verbatim>\<open>str(uuid.uuid4())\<close> is an argument \<open>uuid\<close> of the create operations.
  \<^item> A session identifier handed to a store is a \<open>string option\<close>: \<open>None\<close> is Python's
    \<^verbatim>\<open>None\<close> (no identifier), \<open>Some []\<close> the empty string.
  \<^item> State is passed explicitly: an operation takes the store and returns its result
    together with the store it leaves behind.
  \<^item> The database operations are embedded as they run with a database handle supplied
    (\<^verbatim>\<open>db=db\<close>), which is how every handler calls them; a table is the list of its rows
    in insertion order.
\<close>

type_synonym time = int

definition timedelta_minutes :: "int \<Rightarrow> time" where
  "timedelta_minutes m = m * 60"

text \<open>Python's \<^verbatim>\<open>not session_id\<close>: true of \<^verbatim>\<open>None\<close> and of the empty string.\<close>

definition py_not :: "string option \<Rightarrow> bool" where
  "py_not s = (case s of None \<Rightarrow> True | Some x \<Rightarrow> x = [])"

text \<open>The dictionary the in-memory store keeps per session (and returns from a lookup).\<close>

record session_dict =
  user_email :: string
  created_at :: time
  expires_at :: time
  last_accessed :: time

text \<open>A row of the table \<^verbatim>\<open>sessions\<close> (class \<^verbatim>\<open>Session\<close> of the ORM).\<close>

record Session =
  id :: nat
  session_id :: string
  user_email :: string
  created_at :: time
  expires_at :: time
  last_accessed :: time
  is_active :: bool

text \<open>The dictionary the database store returns from a lookup: five keys.\<close>

record session_data =
  user_email :: string
  created_at :: time
  expires_at :: time
  last_accessed :: time
  session_id :: string

text \<open>An entry of the listing of a user's sessions (both stores: the same four keys).\<close>

record session_summary =
  session_id :: string
  created_at :: time
  last_accessed :: time
  expires_at :: time

datatype py_error = IntegrityError | TypeError | DataError | ValueError

section \<open>The in-memory store\<close>

text \<open>
  \<^verbatim>\<open>_sessions\<close> is a Python dictionary: an association list in insertion order,
  where assigning to a present key replaces its value in place and assigning to a new
  key appends (\<^const>\<open>AList.update\<close>), and \<^verbatim>\<open>del\<close> removes the key
  (\<^const>\<open>AList.delete\<close>).
\<close>

record SessionStore =
  sessions :: "(string \<times> session_dict) list"
  cleanup_interval :: time
  last_cleanup :: time

definition SessionStore_init :: "time \<Rightarrow> SessionStore" where
  "SessionStore_init now = \<lparr>sessions = [], cleanup_interval = 300, last_cleanup = now\<rparr>"

text \<open>\<^verbatim>\<open>session_id in self._sessions\<close>; \<^verbatim>\<open>None\<close> is never a key.\<close>

definition in_sessions :: "string option \<Rightarrow> SessionStore \<Rightarrow> bool" where
  "in_sessions sid st =
     (case sid of None \<Rightarrow> False | Some k \<Rightarrow> map_of (sessions st) k \<noteq> None)"

definition SessionStore_cleanup_expired_sessions :: "time \<Rightarrow> SessionStore \<Rightarrow> SessionStore" where
  "SessionStore_cleanup_expired_sessions now st =
     (if now - last_cleanup st < cleanup_interval st then st
      else st\<lparr>sessions := filter (\<lambda>(sid, s). \<not> now > session_dict.expires_at s) (sessions st),
              last_cleanup := now\<rparr>)"

definition SessionStore_create_session ::
  "string \<Rightarrow> string \<Rightarrow> int \<Rightarrow> time \<Rightarrow> SessionStore \<Rightarrow> string \<times> SessionStore" where
  "SessionStore_create_session uuid email expires_in_minutes now st =
     (let new = \<lparr>session_dict.user_email = email,
                 session_dict.created_at = now,
                 session_dict.expires_at = now + timedelta_minutes expires_in_minutes,
                 session_dict.last_accessed = now\<rparr>;
          st1 = st\<lparr>sessions := AList.update uuid new (sessions st)\<rparr>
      in (uuid, SessionStore_cleanup_expired_sessions now st1))"

definition SessionStore_delete_session ::
  "string option \<Rightarrow> SessionStore \<Rightarrow> bool \<times> SessionStore" where
  "SessionStore_delete_session sid st =
     (case sid of
        None \<Rightarrow> (False, st)
      | Some k \<Rightarrow>
          if in_sessions sid st then (True, st\<lparr>sessions := AList.delete k (sessions st)\<rparr>)
          else (False, st))"

definition SessionStore_get_session ::
  "string option \<Rightarrow> time \<Rightarrow> SessionStore \<Rightarrow> session_dict option \<times> SessionStore" where
  "SessionStore_get_session sid now st =
     (if py_not sid \<or> \<not> in_sessions sid st then (None, st)
      else case sid of
        None \<Rightarrow> (None, st)
      | Some k \<Rightarrow>
          (case map_of (sessions st) k of
             None \<Rightarrow> (None, st)
           | Some session \<Rightarrow>
               if now > session_dict.expires_at session
               then (None, snd (SessionStore_delete_session sid st))
               else let session' = session\<lparr>session_dict.last_accessed := now\<rparr>
                    in (Some session',
                        st\<lparr>sessions := AList.update k session' (sessions st)\<rparr>)))"

definition SessionStore_delete_user_sessions ::
  "string \<Rightarrow> SessionStore \<Rightarrow> nat \<times> SessionStore" where
  "SessionStore_delete_user_sessions email st =
     (let sessions_to_delete =
            map fst (filter (\<lambda>(sid, s). session_dict.user_email s = email) (sessions st))
      in (length sessions_to_delete,
          st\<lparr>sessions := fold AList.delete sessions_to_delete (sessions st)\<rparr>))"

definition SessionStore_extend_session ::
  "string option \<Rightarrow> int \<Rightarrow> time \<Rightarrow> SessionStore \<Rightarrow> bool \<times> SessionStore" where
  "SessionStore_extend_session sid additional_minutes now st =
     (if \<not> in_sessions sid st then (False, st)
      else case sid of
        None \<Rightarrow> (False, st)
      | Some k \<Rightarrow>
          (case map_of (sessions st) k of
             None \<Rightarrow> (False, st)
           | Some session \<Rightarrow>
               (True,
                st\<lparr>sessions :=
                     AList.update k
                       (session\<lparr>session_dict.expires_at :=
                                  now + timedelta_minutes additional_minutes,
                                session_dict.last_accessed := now\<rparr>)
                       (sessions st)\<rparr>)))"

definition SessionStore_get_user_sessions ::
  "string \<Rightarrow> time \<Rightarrow> SessionStore \<Rightarrow> session_summary list" where
  "SessionStore_get_user_sessions email now st =
     map (\<lambda>(sid, s). \<lparr>session_summary.session_id = sid,
                       session_summary.created_at = session_dict.created_at s,
                       session_summary.last_accessed = session_dict.last_accessed s,
                       session_summary.expires_at = session_dict.expires_at s\<rparr>)
       (filter (\<lambda>(sid, s). session_dict.user_email s = email
                           \<and> now \<le> session_dict.expires_at s)
          (sessions st))"

section \<open>The database store\<close>

type_synonym db_table = "Session list"

text \<open>\<^verbatim>\<open>Session.is_expired\<close> and \<^verbatim>\<open>Session.extend_session\<close> of the ORM class.\<close>

definition is_expired :: "Session \<Rightarrow> time \<Rightarrow> bool" where
  "is_expired s now = (now > Session.expires_at s)"

definition Session_extend_session :: "int \<Rightarrow> time \<Rightarrow> Session \<Rightarrow> Session" where
  "Session_extend_session minutes now s =
     s\<lparr>Session.expires_at := now + timedelta_minutes minutes,
       Session.last_accessed := now\<rparr>"

text \<open>
  \<^verbatim>\<open>query(...).filter(P).first()\<close> is the first row satisfying \<open>P\<close>
  (\<^const>\<open>find\<close>); assigning to an attribute of that row object and committing
  rewrites that one row.
\<close>

fun update_first :: "('a \<Rightarrow> bool) \<Rightarrow> ('a \<Rightarrow> 'a) \<Rightarrow> 'a list \<Rightarrow> 'a list" where
  "update_first P f [] = []"
| "update_first P f (x # xs) = (if P x then f x # xs else x # update_first P f xs)"

text \<open>The filters of the queries.\<close>

definition has_id :: "string option \<Rightarrow> Session \<Rightarrow> bool" where
  "has_id sid s = (sid = Some (Session.session_id s))"

definition active_with_id :: "string option \<Rightarrow> Session \<Rightarrow> bool" where
  "active_with_id sid s = (has_id sid s \<and> is_active s)"

definition active_of_user :: "string \<Rightarrow> Session \<Rightarrow> bool" where
  "active_of_user email s = (Session.user_email s = email \<and> is_active s)"

definition expired_and_active :: "time \<Rightarrow> Session \<Rightarrow> bool" where
  "expired_and_active now s = (Session.expires_at s < now \<and> is_active s)"

definition deactivate :: "Session \<Rightarrow> Session" where
  "deactivate s = s\<lparr>is_active := False\<rparr>"

definition DatabaseSessionStore_cleanup_expired_sessions :: "time \<Rightarrow> db_table \<Rightarrow> db_table" where
  "DatabaseSessionStore_cleanup_expired_sessions now db =
     map (\<lambda>s. if expired_and_active now s then deactivate s else s) db"

text \<open>
  The columns \<^verbatim>\<open>session_id\<close> and \<^verbatim>\<open>user_email\<close> are declared \<^verbatim>\<open>String(255)\<close>:
  committing a row with a longer value raises \<^verbatim>\<open>DataError\<close> (a string is the list of
  its characters). The column \<^verbatim>\<open>session_id\<close> is declared \<^verbatim>\<open>unique=True\<close>:
  committing a second row with a stored identifier raises \<^verbatim>\<open>IntegrityError\<close>. Either
  way nothing is stored. The primary key is the next integer (no row is ever deleted);
  \<^verbatim>\<open>created_at\<close> and \<^verbatim>\<open>last_accessed\<close> take the server default, the current time.
\<close>

definition DatabaseSessionStore_create_session ::
  "string \<Rightarrow> string \<Rightarrow> int option \<Rightarrow> time \<Rightarrow> db_table \<Rightarrow> py_error + (string \<times> db_table)" where
  "DatabaseSessionStore_create_session uuid email expires_in_minutes now db =
     (let minutes = (case expires_in_minutes of None \<Rightarrow> 30 | Some m \<Rightarrow> m);
          db_session = \<lparr>Session.id = Suc (length db),
                        Session.session_id = uuid,
                        Session.user_email = email,
                        Session.created_at = now,
                        Session.expires_at = now + timedelta_minutes minutes,
                        Session.last_accessed = now,
                        is_active = True\<rparr>
      in if length uuid > 255 \<or> length email > 255 then Inl DataError
         else if find (has_id (Some uuid)) db \<noteq> None then Inl IntegrityError
         else Inr (uuid, DatabaseSessionStore_cleanup_expired_sessions now (db @ [db_session])))"

definition DatabaseSessionStore_delete_session ::
  "string option \<Rightarrow> db_table \<Rightarrow> bool \<times> db_table" where
  "DatabaseSessionStore_delete_session sid db =
     (if py_not sid then (False, db)
      else case find (has_id sid) db of
        Some db_session \<Rightarrow> (True, update_first (has_id sid) deactivate db)
      | None \<Rightarrow> (False, db))"

definition DatabaseSessionStore_get_session ::
  "string option \<Rightarrow> time \<Rightarrow> db_table \<Rightarrow> session_data option \<times> db_table" where
  "DatabaseSessionStore_get_session sid now db =
     (if py_not sid then (None, db)
      else case find (active_with_id sid) db of
        None \<Rightarrow> (None, db)
      | Some db_session \<Rightarrow>
          if is_expired db_session now
          then (None, snd (DatabaseSessionStore_delete_session sid db))
          else (Some \<lparr>session_data.user_email = Session.user_email db_session,
                      session_data.created_at = Session.created_at db_session,
                      session_data.expires_at = Session.expires_at db_session,
                      session_data.last_accessed = now,
                      session_data.session_id = Session.session_id db_session\<rparr>,
                update_first (active_with_id sid) (\<lambda>s. s\<lparr>Session.last_accessed := now\<rparr>) db))"

definition DatabaseSessionStore_extend_session ::
  "string option \<Rightarrow> int \<Rightarrow> time \<Rightarrow> db_table \<Rightarrow> bool \<times> db_table" where
  "DatabaseSessionStore_extend_session sid minutes now db =
     (if py_not sid then (False, db)
      else case find (active_with_id sid) db of
        None \<Rightarrow> (False, db)
      | Some db_session \<Rightarrow>
          if \<not> is_expired db_session now
          then (True, update_first (active_with_id sid) (Session_extend_session minutes now) db)
          else (False, db))"

definition DatabaseSessionStore_get_user_sessions ::
  "string \<Rightarrow> time \<Rightarrow> db_table \<Rightarrow> session_summary list" where
  "DatabaseSessionStore_get_user_sessions email now db =
     map (\<lambda>s. \<lparr>session_summary.session_id = Session.session_id s,
                session_summary.created_at = Session.created_at s,
                session_summary.last_accessed = Session.last_accessed s,
                session_summary.expires_at = Session.expires_at s\<rparr>)
       (filter (\<lambda>s. \<not> is_expired s now) (filter (active_of_user email) db))"

definition DatabaseSessionStore_delete_all_user_sessions ::
  "string \<Rightarrow> db_table \<Rightarrow> nat \<times> db_table" where
  "DatabaseSessionStore_delete_all_user_sessions email db =
     (let sessions = filter (active_of_user email) db
      in (length sessions,
          map (\<lambda>s. if active_of_user email s then deactivate s else s) db))"

section \<open>The facade and the request guards\<close>

text \<open>
  \<^verbatim>\<open>SecurityManager\<close> (\<^verbatim>\<open>app/security.py\<close>) forwards to the database store. Its class
  body binds the name \<^verbatim>\<open>extend_session\<close> twice: first (lines 56-59) with the parameters
  \<^verbatim>\<open>(session_id, minutes=30, db=None)\<close>, then (lines 73-76) with the single parameter
  \<^verbatim>\<open>(session_id)\<close>. The second binding replaces the first, so
  \<^verbatim>\<open>security_manager.extend_session\<close> is the one-parameter function, which calls the store
  with its defaults. A call is embedded with the arguments it passes beyond the first
  positional one (further positional values, keyword names): Python raises
  \<^verbatim>\<open>TypeError\<close> when there are any.
\<close>

definition SecurityManager_create_session ::
  "string \<Rightarrow> string \<Rightarrow> time \<Rightarrow> db_table \<Rightarrow> py_error + (string \<times> db_table)" where
  "SecurityManager_create_session uuid email now db =
     DatabaseSessionStore_create_session uuid email (Some 30) now db"

definition SecurityManager_delete_session :: "string option \<Rightarrow> db_table \<Rightarrow> bool \<times> db_table" where
  "SecurityManager_delete_session sid db = DatabaseSessionStore_delete_session sid db"

definition SecurityManager_extend_session ::
  "string option \<Rightarrow> int list \<Rightarrow> string list \<Rightarrow> time \<Rightarrow> db_table \<Rightarrow> py_error + (bool \<times> db_table)" where
  "SecurityManager_extend_session sid more_positional keywords now db =
     (if more_positional = [] \<and> keywords = []
      then Inr (DatabaseSessionStore_extend_session sid 30 now db)
      else Inl TypeError)"

datatype http_exception = HTTPException (status_code: nat) (detail: string)

text \<open>What a guard hands to the handler.\<close>

record user_session =
  email :: string
  session_id :: string
  session_data :: session_data

text \<open>Python's \<^verbatim>\<open>a or b\<close> on optional strings.\<close>

definition py_or :: "string option \<Rightarrow> string option \<Rightarrow> string option" where
  "py_or a b = (if py_not a then b else a)"

text \<open>
  \<^verbatim>\<open>get_current_user_session\<close>: the identifier is the cookie or else the header
  \<^verbatim>\<open>X-Session-ID\<close>. A rejection is an \<^verbatim>\<open>HTTPException\<close>; what the lookup wrote to
  the table stays written.
\<close>

definition get_current_user_session ::
  "string option \<Rightarrow> string option \<Rightarrow> time \<Rightarrow> db_table
     \<Rightarrow> (http_exception + user_session) \<times> db_table" where
  "get_current_user_session session_cookie session_header now db =
     (let sid = py_or session_cookie session_header
      in if py_not sid
         then (Inl (HTTPException 401 ''No session found. Please login.''), db)
         else case sid of
           None \<Rightarrow> (Inl (HTTPException 401 ''No session found. Please login.''), db)
         | Some k \<Rightarrow>
             (case DatabaseSessionStore_get_session sid now db of
                (None, db') \<Rightarrow>
                  (Inl (HTTPException 401 ''Invalid or expired session. Please login again.''), db')
              | (Some d, db') \<Rightarrow>
                  (Inr \<lparr>email = session_data.user_email d,
                        user_session.session_id = k,
                        session_data = d\<rparr>, db')))"

text \<open>\<^verbatim>\<open>get_current_user_for_session_ops\<close>: the same guard, reading the cookie only.\<close>

definition get_current_user_for_session_ops ::
  "string option \<Rightarrow> time \<Rightarrow> db_table \<Rightarrow> (http_exception + user_session) \<times> db_table" where
  "get_current_user_for_session_ops user_session_cookie now db =
     (if py_not user_session_cookie
      then (Inl (HTTPException 401 ''No session found. Please login.''), db)
      else case user_session_cookie of
        None \<Rightarrow> (Inl (HTTPException 401 ''No session found. Please login.''), db)
      | Some k \<Rightarrow>
          (case DatabaseSessionStore_get_session user_session_cookie now db of
             (None, db') \<Rightarrow>
               (Inl (HTTPException 401 ''Invalid or expired session. Please login again.''), db')
           | (Some d, db') \<Rightarrow>
               (Inr \<lparr>email = session_data.user_email d,
                     user_session.session_id = k,
                     session_data = d\<rparr>, db')))"

section \<open>The session handlers\<close>

text \<open>
  \<^verbatim>\<open>terminate_session\<close>: the target must be among the acting user's listed sessions and
  must not be the session the request came with.
\<close>

definition terminate_session ::
  "string \<Rightarrow> user_session \<Rightarrow> time \<Rightarrow> db_table \<Rightarrow> (http_exception + string) \<times> db_table" where
  "terminate_session target current_user_data now db =
     (let user_sessions = DatabaseSessionStore_get_user_sessions (email current_user_data) now db;
          target_session = find (\<lambda>s. session_summary.session_id s = target) user_sessions
      in if target_session = None
         then (Inl (HTTPException 404 ''Session not found or doesn't belong to you''), db)
         else if target = user_session.session_id current_user_data
         then (Inl (HTTPException 400 ''Cannot terminate current session. Use logout instead.''), db)
         else case SecurityManager_delete_session (Some target) db of
                (True, db') \<Rightarrow> (Inr ''Session terminated successfully'', db')
              | (False, db') \<Rightarrow> (Inl (HTTPException 500 ''Failed to terminate session''), db'))"

text \<open>
  \<^verbatim>\<open>extend_current_session\<close>. The request body is a JSON object; \<open>extend_data\<close> is what
  it holds under \<^verbatim>\<open>"minutes"\<close> (\<open>None\<close>: no such key, the default 30 applies). A
  JSON boolean is an \<^verbatim>\<open>int\<close> for \<^verbatim>\<open>isinstance\<close>; every other non-integer value is
  \<open>JOther\<close>. The handler passes \<^verbatim>\<open>minutes\<close> as a second positional argument and
  \<^verbatim>\<open>db\<close> by keyword; an exception other than \<^verbatim>\<open>HTTPException\<close> becomes the
  response 500.
\<close>

datatype json_value = JInt int | JBool bool | JOther

definition isinstance_int :: "json_value \<Rightarrow> bool" where
  "isinstance_int v = (case v of JInt i \<Rightarrow> True | JBool b \<Rightarrow> True | JOther \<Rightarrow> False)"

definition int_value :: "json_value \<Rightarrow> int" where
  "int_value v = (case v of JInt i \<Rightarrow> i | JBool b \<Rightarrow> (if b then 1 else 0) | JOther \<Rightarrow> 0)"

definition extend_current_session ::
  "json_value option \<Rightarrow> user_session \<Rightarrow> time \<Rightarrow> db_table \<Rightarrow> (http_exception + int) \<times> db_table" where
  "extend_current_session extend_data current_user_data now db =
     (let minutes = (case extend_data of None \<Rightarrow> JInt 30 | Some v \<Rightarrow> v)
      in if \<not> isinstance_int minutes \<or> int_value minutes < 5 \<or> int_value minutes > 480
         then (Inl (HTTPException 400 ''Minutes must be between 5 and 480''), db)
         else case SecurityManager_extend_session
                     (Some (user_session.session_id current_user_data))
                     [int_value minutes] [''db''] now db of
                Inl e \<Rightarrow> (Inl (HTTPException 500 ''Internal server error''), db)
              | Inr (True, db') \<Rightarrow> (Inr (int_value minutes), db')
              | Inr (False, db') \<Rightarrow>
                  (Inl (HTTPException 400
                     ''Failed to extend session. Session may be expired or invalid.''), db'))"

section \<open>Runs of store operations\<close>

text \<open>
  The operations of the store contract and what they return. A run applies a list of
  operations, each at its own clock reading, to a store and collects the results. Both
  stores are driven through the same interface; the identifier a \<open>Create\<close> hands out is
  part of the operation.
\<close>

datatype store_op =
    Create string string int
  | Get "string option"
  | Extend "string option" int
  | Revoke "string option"
  | ListByPrincipal string
  | RevokeAllByPrincipal string

datatype 'g store_result =
    Created string
  | Got "'g option"
  | Done bool
  | Listed "session_summary list"
  | Counted nat
  | Raised py_error

definition SessionStore_step ::
  "time \<Rightarrow> store_op \<Rightarrow> SessionStore \<Rightarrow> session_dict store_result \<times> SessionStore" where
  "SessionStore_step now op st =
     (case op of
        Create uuid user ttl \<Rightarrow>
          (case SessionStore_create_session uuid user ttl now st of
             (sid, st') \<Rightarrow> (Created sid, st'))
      | Get sid \<Rightarrow>
          (case SessionStore_get_session sid now st of (r, st') \<Rightarrow> (Got r, st'))
      | Extend sid minutes \<Rightarrow>
          (case SessionStore_extend_session sid minutes now st of (b, st') \<Rightarrow> (Done b, st'))
      | Revoke sid \<Rightarrow>
          (case SessionStore_delete_session sid st of (b, st') \<Rightarrow> (Done b, st'))
      | ListByPrincipal user \<Rightarrow> (Listed (SessionStore_get_user_sessions user now st), st)
      | RevokeAllByPrincipal user \<Rightarrow>
          (case SessionStore_delete_user_sessions user st of (n, st') \<Rightarrow> (Counted n, st')))"

text \<open>
  Two things the database store leaves to the engine and the driver are part of its
  step. The listing query has no \<^verbatim>\<open>ORDER BY\<close>: the rows come back in an order of the
  engine's choosing, \<open>row_order\<close>, which may depend on the moment and on the table. And
  the driver (psycopg2) refuses to bind a text that contains the NUL character: the call
  raises \<^verbatim>\<open>ValueError\<close> before any SQL runs.
\<close>

definition transmittable :: "string \<Rightarrow> bool" where
  "transmittable s = (CHR 0x00 \<notin> set s)"

definition transmittable_id :: "string option \<Rightarrow> bool" where
  "transmittable_id sid = (case sid of None \<Rightarrow> True | Some k \<Rightarrow> transmittable k)"

definition op_transmittable :: "store_op \<Rightarrow> bool" where
  "op_transmittable op =
     (case op of
        Create uuid user ttl \<Rightarrow> transmittable uuid \<and> transmittable user
      | Get sid \<Rightarrow> transmittable_id sid
      | Extend sid minutes \<Rightarrow> transmittable_id sid
      | Revoke sid \<Rightarrow> transmittable_id sid
      | ListByPrincipal user \<Rightarrow> transmittable user
      | RevokeAllByPrincipal user \<Rightarrow> transmittable user)"

type_synonym row_order = "time \<Rightarrow> db_table \<Rightarrow> session_summary list \<Rightarrow> session_summary list"

definition insertion_order :: row_order where
  "insertion_order now db xs = xs"

definition reverse_order :: row_order where
  "reverse_order now db xs = rev xs"

definition DatabaseSessionStore_step ::
  "row_order \<Rightarrow> time \<Rightarrow> store_op \<Rightarrow> db_table \<Rightarrow> session_data store_result \<times> db_table" where
  "DatabaseSessionStore_step row_order now op db =
     (if op_transmittable op then
        (case op of
           Create uuid user ttl \<Rightarrow>
             (case DatabaseSessionStore_create_session uuid user (Some ttl) now db of
                Inl e \<Rightarrow> (Raised e, db)
              | Inr (sid, db') \<Rightarrow> (Created sid, db'))
         | Get sid \<Rightarrow>
             (case DatabaseSessionStore_get_session sid now db of (r, db') \<Rightarrow> (Got r, db'))
         | Extend sid minutes \<Rightarrow>
             (case DatabaseSessionStore_extend_session sid minutes now db of
                (b, db') \<Rightarrow> (Done b, db'))
         | Revoke sid \<Rightarrow>
             (case DatabaseSessionStore_delete_session sid db of (b, db') \<Rightarrow> (Done b, db'))
         | ListByPrincipal user \<Rightarrow>
             (Listed (row_order now db (DatabaseSessionStore_get_user_sessions user now db)), db)
         | RevokeAllByPrincipal user \<Rightarrow>
             (case DatabaseSessionStore_delete_all_user_sessions user db of
                (n, db') \<Rightarrow> (Counted n, db')))
      else (Raised ValueError, db))"

fun SessionStore_run ::
  "(time \<times> store_op) list \<Rightarrow> SessionStore \<Rightarrow> session_dict store_result list" where
  "SessionStore_run [] st = []"
| "SessionStore_run ((now, op) # rest) st =
     fst (SessionStore_step now op st) # SessionStore_run rest (snd (SessionStore_step now op st))"

fun DatabaseSessionStore_run ::
  "row_order \<Rightarrow> (time \<times> store_op) list \<Rightarrow> db_table \<Rightarrow> session_data store_result list" where
  "DatabaseSessionStore_run row_order [] db = []"
| "DatabaseSessionStore_run row_order ((now, op) # rest) db =
     fst (DatabaseSessionStore_step row_order now op db)
       # DatabaseSessionStore_run row_order rest
           (snd (DatabaseSessionStore_step row_order now op db))"

text \<open>
  The two stores read different clocks: the in-memory store the naive local time
  (\<^verbatim>\<open>datetime.now()\<close>), the database store the time in UTC
  (\<^verbatim>\<open>datetime.now(timezone.utc)\<close>). With \<open>zone\<close> the offset of local time from UTC in
  seconds, an operation the database store sees at \<open>t\<close> the in-memory store sees at
  \<open>t + zone\<close>.
\<close>

definition local_time :: "int \<Rightarrow> (time \<times> store_op) list \<Rightarrow> (time \<times> store_op) list" where
  "local_time zone ops = map (\<lambda>(t, op). (t + zone, op)) ops"

text \<open>
  What it means for two results to be the same to the caller. The lookup of the
  database store returns the four keys of the in-memory lookup and the key
  \<^verbatim>\<open>session_id\<close> besides; time stamps are compared as instants, the in-memory ones being
  local; a listing is compared as the collection of its entries, in whatever order.
\<close>

definition local_dict :: "int \<Rightarrow> session_data \<Rightarrow> session_dict" where
  "local_dict zone d =
     \<lparr>session_dict.user_email = session_data.user_email d,
      session_dict.created_at = session_data.created_at d + zone,
      session_dict.expires_at = session_data.expires_at d + zone,
      session_dict.last_accessed = session_data.last_accessed d + zone\<rparr>"

definition local_summary :: "int \<Rightarrow> session_summary \<Rightarrow> session_summary" where
  "local_summary zone s =
     \<lparr>session_summary.session_id = session_summary.session_id s,
      session_summary.created_at = session_summary.created_at s + zone,
      session_summary.last_accessed = session_summary.last_accessed s + zone,
      session_summary.expires_at = session_summary.expires_at s + zone\<rparr>"

fun same_result :: "int \<Rightarrow> session_dict store_result \<Rightarrow> session_data store_result \<Rightarrow> bool" where
  "same_result zone (Created a) (Created b) = (a = b)"
| "same_result zone (Got x) (Got y) = (x = map_option (local_dict zone) y)"
| "same_result zone (Done a) (Done b) = (a = b)"
| "same_result zone (Listed xs) (Listed ys) = (mset xs = mset (map (local_summary zone) ys))"
| "same_result zone (Counted a) (Counted b) = (a = b)"
| "same_result zone (Raised a) (Raised b) = (a = b)"
| "same_result zone _ _ = False"

text \<open>
  The runs on which the two stores are compared. The clock does not go back. A created
  identifier is not empty (it is a UUID string) and not yet in the table, and neither
  it nor the principal exceeds the 255 characters of its column. No text contains the
  NUL character. \<open>Extend\<close> is not applied to a record that the in-memory store holds
  past its expiry. \<open>Revoke\<close> is not applied to an identifier whose row is in the table
  but whose record the in-memory store no longer holds. \<open>RevokeAllByPrincipal\<close> is not
  applied while the in-memory store holds a record of that principal whose row the
  database store has already deactivated. Lookups and listings are unrestricted.
\<close>

definition expired_in_memory :: "string option \<Rightarrow> time \<Rightarrow> SessionStore \<Rightarrow> bool" where
  "expired_in_memory sid local_now st =
     (case sid of
        None \<Rightarrow> False
      | Some k \<Rightarrow>
          (case map_of (sessions st) k of
             None \<Rightarrow> False
           | Some s \<Rightarrow> local_now > session_dict.expires_at s))"

definition admissible :: "int \<Rightarrow> time \<Rightarrow> store_op \<Rightarrow> SessionStore \<Rightarrow> db_table \<Rightarrow> bool" where
  "admissible zone now op st db =
     (op_transmittable op \<and>
      (case op of
         Create uuid user ttl \<Rightarrow>
           uuid \<noteq> [] \<and> length uuid \<le> 255 \<and> length user \<le> 255
           \<and> find (has_id (Some uuid)) db = None
       | Get sid \<Rightarrow> True
       | Extend sid minutes \<Rightarrow> \<not> expired_in_memory sid (now + zone) st
       | Revoke sid \<Rightarrow> in_sessions sid st \<or> find (has_id sid) db = None
       | ListByPrincipal user \<Rightarrow> True
       | RevokeAllByPrincipal user \<Rightarrow>
           list_all (\<lambda>(k, s). session_dict.user_email s = user \<longrightarrow>
                       find (active_with_id (Some k)) db \<noteq> None) (sessions st)))"

fun admissible_run ::
  "row_order \<Rightarrow> int \<Rightarrow> time \<Rightarrow> (time \<times> store_op) list \<Rightarrow> SessionStore \<Rightarrow> db_table \<Rightarrow> bool" where
  "admissible_run row_order zone t0 [] st db = True"
| "admissible_run row_order zone t0 ((now, op) # rest) st db =
     (t0 \<le> now \<and> admissible zone now op st db
      \<and> admissible_run row_order zone now rest
            (snd (SessionStore_step (now + zone) op st))
            (snd (DatabaseSessionStore_step row_order now op db)))"

section \<open>Example states\<close>

definition alice_store :: SessionStore where
  "alice_store =
     \<lparr>sessions = [(''s1'', \<lparr>session_dict.user_email = ''alice@example.com'',
                            session_dict.created_at = 0,
                            session_dict.expires_at = 1800,
                            session_dict.last_accessed = 0\<rparr>)],
      cleanup_interval = 300, last_cleanup = 0\<rparr>"

definition alice_row :: Session where
  "alice_row =
     \<lparr>Session.id = 1, Session.session_id = ''s1'',
      Session.user_email = ''alice@example.com'',
      Session.created_at = 0, Session.expires_at = 1800,
      Session.last_accessed = 0, is_active = True\<rparr>"

text \<open>What the guard yields for the cookie \<open>s1\<close> at second 10, and the table it leaves.\<close>

definition alice_user :: user_session where
  "alice_user =
     \<lparr>email = ''alice@example.com'', user_session.session_id = ''s1'',
      session_data = \<lparr>session_data.user_email = ''alice@example.com'',
                      session_data.created_at = 0,
                      session_data.expires_at = 1800,
                      session_data.last_accessed = 10,
                      session_data.session_id = ''s1''\<rparr>\<rparr>"

definition alice_table :: db_table where
  "alice_table = [alice_row\<lparr>Session.last_accessed := 10\<rparr>]"

text \<open>
  A table with two sessions of one user and one of another: \<open>s1\<close> is the session of
  \<^const>\<open>alice_user\<close>, \<open>s2\<close> her second device, \<open>s3\<close> belongs to Bob.
\<close>

definition three_rows :: db_table where
  "three_rows =
     [alice_row\<lparr>Session.last_accessed := 10\<rparr>,
      \<lparr>Session.id = 2, Session.session_id = ''s2'',
       Session.user_email = ''alice@example.com'',
       Session.created_at = 5, Session.expires_at = 1805,
       Session.last_accessed = 5, is_active = True\<rparr>,
      \<lparr>Session.id = 3, Session.session_id = ''s3'',
       Session.user_email = ''bob@example.com'',
       Session.created_at = 5, Session.expires_at = 1805,
       Session.last_accessed = 5, is_active = True\<rparr>]"

text \<open>The table of three sessions after \<open>s2\<close> has been revoked.\<close>

definition three_rows_s2_revoked :: db_table where
  "three_rows_s2_revoked =
     [\<lparr>Session.id = 1, Session.session_id = ''s1'',
       Session.user_email = ''alice@example.com'',
       Session.created_at = 0, Session.expires_at = 1800,
       Session.last_accessed = 10, is_active = True\<rparr>,
      \<lparr>Session.id = 2, Session.session_id = ''s2'',
       Session.user_email = ''alice@example.com'',
       Session.created_at = 5, Session.expires_at = 1805,
       Session.last_accessed = 5, is_active = False\<rparr>,
      \<lparr>Session.id = 3, Session.session_id = ''s3'',
       Session.user_email = ''bob@example.com'',
       Session.created_at = 5, Session.expires_at = 1805,
       Session.last_accessed = 5, is_active = True\<rparr>]"


text \<open>Example runs, started on empty stores.\<close>

definition revoke_twice :: "(time \<times> store_op) list" where
  "revoke_twice =
     [(0, Create ''s1'' ''alice@example.com'' 30),
      (0, Revoke (Some ''s1'')),
      (0, Revoke (Some ''s1''))]"

definition extend_expired :: "(time \<times> store_op) list" where
  "extend_expired =
     [(0, Create ''s1'' ''alice@example.com'' 30),
      (1860, Extend (Some ''s1'') 30)]"

definition revoke_all_after_sweep :: "(time \<times> store_op) list" where
  "revoke_all_after_sweep =
     [(0, Create ''s1'' ''bob@example.com'' 1),
      (120, Create ''s2'' ''carol@example.com'' 30),
      (120, RevokeAllByPrincipal ''bob@example.com'')]"

definition long_principal :: "(time \<times> store_op) list" where
  "long_principal = [(0, Create ''s1'' (replicate 256 CHR ''a'') 30)]"

definition nul_in_principal :: "(time \<times> store_op) list" where
  "nul_in_principal = [(0, ListByPrincipal [CHR ''a'', CHR 0x00])]"

definition empty_identifier :: "(time \<times> store_op) list" where
  "empty_identifier =
     [(0, Create [] ''alice@example.com'' 30),
      (0, Revoke (Some []))]"

definition clock_set_back :: "(time \<times> store_op) list" where
  "clock_set_back =
     [(0, Create ''s1'' ''bob@example.com'' 1),
      (120, Create ''s2'' ''carol@example.com'' 30),
      (30, Get (Some ''s1''))]"

definition two_devices :: "(time \<times> store_op) list" where
  "two_devices =
     [(0, Create ''s1'' ''alice@example.com'' 30),
      (5, Create ''s2'' ''alice@example.com'' 30),
      (10, Get (Some ''s1'')),
      (20, ListByPrincipal ''alice@example.com'')]"

definition busy_day :: "(time \<times> store_op) list" where
  "busy_day =
     [(0, Create ''s1'' ''alice@example.com'' 30),
      (0, Create ''s2'' ''bob@example.com'' 1),
      (10, Get (Some ''s1'')),
      (20, Extend (Some ''s1'') 60),
      (100, Create ''s3'' ''alice@example.com'' 30),
      (100, Get (Some ''s2'')),
      (110, ListByPrincipal ''alice@example.com''),
      (120, Revoke (Some ''s3'')),
      (125, Extend (Some ''s3'') 30),
      (130, RevokeAllByPrincipal ''alice@example.com''),
      (130, ListByPrincipal ''alice@example.com''),
      (4000, Create ''s4'' ''alice@example.com'' 30),
      (4010, RevokeAllByPrincipal ''bob@example.com''),
      (4020, RevokeAllByPrincipal ''alice@example.com'')]"

section \<open>Specification predicates\<close>

text \<open>
  The target identifier names a session of the acting user that is live in the table:
  stored, owned, active and not expired.
\<close>

definition owned_and_live :: "string \<Rightarrow> string \<Rightarrow> time \<Rightarrow> db_table \<Rightarrow> bool" where
  "owned_and_live target owner now db =
     (\<exists>s\<in>set db. Session.session_id s = target \<and> Session.user_email s = owner
        \<and> is_active s \<and> \<not> is_expired s now)"

section \<open>The abstraction between the stores\<close>

text \<open>
  A table row, stripped of its primary key, identifier and flag and with its time
  stamps moved to local time, is a dictionary of the in-memory store. The in-memory
  store holds the entries of the active rows and, because it sweeps expired sessions
  less often than the database store does, possibly those of some deactivated rows that
  have expired: the rows whose identifier is in \<open>Z\<close>.
\<close>

definition dict_of_row :: "int \<Rightarrow> Session \<Rightarrow> session_dict" where
  "dict_of_row zone r =
     \<lparr>session_dict.user_email = Session.user_email r,
      session_dict.created_at = Session.created_at r + zone,
      session_dict.expires_at = Session.expires_at r + zone,
      session_dict.last_accessed = Session.last_accessed r + zone\<rparr>"

definition entry_of_row :: "int \<Rightarrow> Session \<Rightarrow> string \<times> session_dict" where
  "entry_of_row zone r = (Session.session_id r, dict_of_row zone r)"

definition kept :: "string set \<Rightarrow> Session \<Rightarrow> bool" where
  "kept Z r = (is_active r \<or> Session.session_id r \<in> Z)"

definition held :: "int \<Rightarrow> string set \<Rightarrow> db_table \<Rightarrow> (string \<times> session_dict) list" where
  "held zone Z db = map (entry_of_row zone) (filter (kept Z) db)"

definition related :: "int \<Rightarrow> string set \<Rightarrow> time \<Rightarrow> SessionStore \<Rightarrow> db_table \<Rightarrow> bool" where
  "related zone Z now st db =
     (distinct (map Session.session_id db)
      \<and> [] \<notin> Session.session_id ` set db
      \<and> sessions st = held zone Z db
      \<and> Z \<subseteq> Session.session_id ` set db
      \<and> (\<forall>r\<in>set db. Session.session_id r \<in> Z \<longrightarrow>
            \<not> is_active r \<and> Session.expires_at r < now))"

section \<open>Unfolding rules\<close>

lemmas mem_defs =
  SessionStore_create_session_def SessionStore_init_def
  SessionStore_cleanup_expired_sessions_def SessionStore_get_user_sessions_def
  SessionStore_extend_session_def SessionStore_get_session_def
  SessionStore_delete_session_def SessionStore_delete_user_sessions_def
  in_sessions_def

lemmas db_defs =
  DatabaseSessionStore_create_session_def DatabaseSessionStore_cleanup_expired_sessions_def
  DatabaseSessionStore_delete_session_def DatabaseSessionStore_get_session_def
  DatabaseSessionStore_extend_session_def DatabaseSessionStore_get_user_sessions_def
  DatabaseSessionStore_delete_all_user_sessions_def
  has_id_def active_with_id_def active_of_user_def expired_and_active_def
  deactivate_def is_expired_def Session_extend_session_def

section \<open>Liveness after expiry (C1)\<close>

text \<open>
  C1. Once a record is not live, no operation should observe it as live again; extending
  a dead record should return false and leave its expiry alone. The in-memory
  \<^verbatim>\<open>extend_session\<close> tests only that the key is stored: a session created at time 0
  for 30 minutes is dead at second 1860 (the lookup and the listing no longer show it),
  yet extending it then returns \<open>True\<close>, moves \<open>expires_at\<close> to 3660, and the
  next lookup returns the record.
\<close>

theorem C1_memory_extend_revives_expired:
  "SessionStore_create_session ''s1'' ''alice@example.com'' 30 0 (SessionStore_init 0)
     = (''s1'', alice_store)
   \<and> fst (SessionStore_get_session (Some ''s1'') 1860 alice_store) = None
   \<and> SessionStore_get_user_sessions ''alice@example.com'' 1860 alice_store = []
   \<and> SessionStore_extend_session (Some ''s1'') 30 1860 alice_store
       = (True, alice_store\<lparr>sessions :=
                  [(''s1'', \<lparr>session_dict.user_email = ''alice@example.com'',
                             session_dict.created_at = 0,
                             session_dict.expires_at = 3660,
                             session_dict.last_accessed = 1860\<rparr>)]\<rparr>)
   \<and> fst (SessionStore_get_session (Some ''s1'') 1920
            (snd (SessionStore_extend_session (Some ''s1'') 30 1860 alice_store)))
       = Some \<lparr>session_dict.user_email = ''alice@example.com'',
                session_dict.created_at = 0,
                session_dict.expires_at = 3660,
                session_dict.last_accessed = 1920\<rparr>"
  by (simp add: mem_defs py_not_def timedelta_minutes_def alice_store_def Let_def)

section \<open>Revoking twice (C4)\<close>

text \<open>
  C4. \<open>revoke(id)\<close> should return true exactly once. The database
  \<^verbatim>\<open>delete_session\<close> looks the row up by identifier alone, without the
  \<^verbatim>\<open>is_active\<close> filter of the lookup and of the extension: the second call finds the
  deactivated row and returns \<open>True\<close> again.
\<close>

theorem C4_database_second_revoke_returns_true:
  "DatabaseSessionStore_create_session ''s1'' ''alice@example.com'' (Some 30) 0 []
     = Inr (''s1'', [alice_row])
   \<and> DatabaseSessionStore_delete_session (Some ''s1'') [alice_row]
       = (True, [alice_row\<lparr>is_active := False\<rparr>])
   \<and> DatabaseSessionStore_delete_session (Some ''s1'') [alice_row\<lparr>is_active := False\<rparr>]
       = (True, [alice_row\<lparr>is_active := False\<rparr>])"
  by (simp add: db_defs py_not_def timedelta_minutes_def alice_row_def Let_def)

section \<open>The empty and the missing identifier (C10)\<close>

text \<open>
  C10. For the empty string and for no identifier at all, the lookup returns nothing and
  revocation and extension return \<open>False\<close>, in both stores, and the store is left as
  it was. For the in-memory store this rests on the empty string not being a key of the
  dictionary (keys are UUID strings).
\<close>

theorem C10_empty_or_missing_identifier:
  assumes "sid = None \<or> sid = Some []" and "map_of (sessions st) [] = None"
  shows "SessionStore_get_session sid now st = (None, st)
       \<and> SessionStore_delete_session sid st = (False, st)
       \<and> SessionStore_extend_session sid m now st = (False, st)
       \<and> DatabaseSessionStore_get_session sid now db = (None, db)
       \<and> DatabaseSessionStore_delete_session sid db = (False, db)
       \<and> DatabaseSessionStore_extend_session sid m now db = (False, db)"
  using assms by (auto simp: mem_defs db_defs py_not_def)

theorem C10_empty_or_missing_identifier_witness:
  "SessionStore_get_session (Some []) 10 alice_store = (None, alice_store)
   \<and> SessionStore_delete_session (Some []) alice_store = (False, alice_store)
   \<and> SessionStore_extend_session (Some []) 30 10 alice_store = (False, alice_store)
   \<and> DatabaseSessionStore_get_session (Some []) 10 [alice_row] = (None, [alice_row])
   \<and> DatabaseSessionStore_delete_session (Some []) [alice_row] = (False, [alice_row])
   \<and> DatabaseSessionStore_extend_session (Some []) 30 10 [alice_row] = (False, [alice_row])"
  using C10_empty_or_missing_identifier [of "Some []" alice_store 10 30 "[alice_row]"]
  by (simp add: alice_store_def)

section \<open>Extending through the handler (C5)\<close>

text \<open>
  C5. Extending a live session by 480 minutes through the handler should succeed, and a
  value outside 5..480 should be rejected before the store is reached. The second half
  holds. The first does not: the handler calls \<^verbatim>\<open>security_manager.extend_session\<close> with
  a second positional argument and the keyword \<^verbatim>\<open>db\<close>, the surviving binding of that
  name takes one parameter, the call raises \<^verbatim>\<open>TypeError\<close> and the handler answers 500
  with the table untouched, for every value the validation lets through.
\<close>

theorem C5_extend_current_session_in_range_fails:
  "(isinstance_int v \<and> 5 \<le> int_value v \<and> int_value v \<le> 480 \<longrightarrow>
      extend_current_session (Some v) cur now db
        = (Inl (HTTPException 500 ''Internal server error''), db))
   \<and> (\<not> isinstance_int v \<or> int_value v < 5 \<or> 480 < int_value v \<longrightarrow>
      extend_current_session (Some v) cur now db
        = (Inl (HTTPException 400 ''Minutes must be between 5 and 480''), db))"
  by (simp add: extend_current_session_def SecurityManager_extend_session_def)

theorem C5_extend_current_session_in_range_fails_witness:
  "get_current_user_session (Some ''s1'') None 10 [alice_row] = (Inr alice_user, alice_table)
   \<and> extend_current_session (Some (JInt 480)) alice_user 10 alice_table
       = (Inl (HTTPException 500 ''Internal server error''), alice_table)
   \<and> extend_current_session (Some (JInt 481)) alice_user 10 alice_table
       = (Inl (HTTPException 400 ''Minutes must be between 5 and 480''), alice_table)
   \<and> fst (DatabaseSessionStore_extend_session (Some ''s1'') 480 10 alice_table) = True"
  using C5_extend_current_session_in_range_fails [of "JInt 480" alice_user 10 alice_table]
    C5_extend_current_session_in_range_fails [of "JInt 481" alice_user 10 alice_table]
  by (simp add: isinstance_int_def int_value_def get_current_user_session_def py_or_def
      py_not_def db_defs alice_row_def alice_user_def alice_table_def)

section \<open>The guard's rejections (C7)\<close>

lemma find_active_None:
  "find (active_with_id (Some k)) db = None \<longleftrightarrow>
     (\<forall>r\<in>set db. Session.session_id r = k \<longrightarrow> \<not> is_active r)"
  by (auto simp: find_None_iff active_with_id_def has_id_def)




section \<open>Terminating another session (C8)\<close>

lemma update_first_unique:
  assumes "distinct (map g xs)" and "\<And>x. P x \<Longrightarrow> g x = k"
  shows "update_first P f xs = map (\<lambda>x. if P x then f x else x) xs"
  using assms(1)
proof (induction xs)
  case Nil
  then show ?case by simp
next
  case (Cons x xs)
  show ?case
  proof (cases "P x")
    case True
    with assms(2) have "g x = k" by simp
    with Cons.prems have "\<forall>y\<in>set xs. g y \<noteq> k" by (auto simp: image_iff)
    with assms(2) have "\<forall>y\<in>set xs. \<not> P y" by blast
    then have "map (\<lambda>x. if P x then f x else x) xs = xs"
      by (induction xs) auto
    with True show ?thesis by simp
  next
    case False
    with Cons show ?thesis by simp
  qed
qed

lemma find_update_first:
  "find P xs = Some r \<Longrightarrow> f r \<in> set (update_first P f xs)"
  by (induction xs) (auto split: if_splits)

lemma find_listing_iff:
  "find (\<lambda>s. session_summary.session_id s = target)
      (DatabaseSessionStore_get_user_sessions owner now db) = None
   \<longleftrightarrow> \<not> owned_and_live target owner now db"
  by (auto simp: find_None_iff DatabaseSessionStore_get_user_sessions_def owned_and_live_def
      active_of_user_def)

lemma find_has_id:
  "s \<in> set db \<Longrightarrow> Session.session_id s = target \<Longrightarrow> find (has_id (Some target)) db \<noteq> None"
  by (auto simp: find_None_iff has_id_def)

lemma terminate_not_found:
  "\<not> owned_and_live target (email cur) now db \<Longrightarrow>
   terminate_session target cur now db
     = (Inl (HTTPException 404 ''Session not found or doesn't belong to you''), db)"
  using find_listing_iff [of target "email cur" now db]
  by (simp add: terminate_session_def Let_def)

lemma terminate_own:
  "owned_and_live target (email cur) now db \<Longrightarrow> target = user_session.session_id cur \<Longrightarrow>
   terminate_session target cur now db
     = (Inl (HTTPException 400 ''Cannot terminate current session. Use logout instead.''), db)"
  using find_listing_iff [of target "email cur" now db]
  by (simp add: terminate_session_def Let_def)

lemma terminate_other:
  assumes "owned_and_live target (email cur) now db"
    and "target \<noteq> user_session.session_id cur"
    and "target \<noteq> []" and "distinct (map Session.session_id db)"
  shows "terminate_session target cur now db
     = (Inr ''Session terminated successfully'',
        map (\<lambda>s. if Session.session_id s = target then s\<lparr>is_active := False\<rparr> else s) db)"
proof -
  from assms(1) obtain s where "s \<in> set db" "Session.session_id s = target"
    by (auto simp: owned_and_live_def)
  then have "find (has_id (Some target)) db \<noteq> None" by (rule find_has_id)
  moreover have "update_first (has_id (Some target)) deactivate db
      = map (\<lambda>s. if Session.session_id s = target then s\<lparr>is_active := False\<rparr> else s) db"
    using update_first_unique [OF assms(4), of "has_id (Some target)" target deactivate]
    by (simp add: has_id_def deactivate_def)
  ultimately show ?thesis
    using assms(1-3) find_listing_iff [of target "email cur" now db]
    by (auto simp: terminate_session_def Let_def SecurityManager_delete_session_def
        DatabaseSessionStore_delete_session_def py_not_def)
qed

lemma revoked_target_inactive:
  fixes db :: db_table
  assumes "s \<in> set (map (\<lambda>s. if Session.session_id s = k
                                then s\<lparr>is_active := False\<rparr> else s) db)"
    and "Session.session_id s = k"
  shows "\<not> is_active s"
proof -
  from assms(1) obtain x where x: "x \<in> set db"
    "s = (if Session.session_id x = k then x\<lparr>is_active := False\<rparr> else x)"
    unfolding set_map by blast
  show ?thesis
  proof (cases "Session.session_id x = k")
    case True
    with x(2) show ?thesis by simp
  next
    case False
    with x(2) assms(2) show ?thesis by simp
  qed
qed

lemma revoked_target_not_live:
  fixes db :: db_table
  shows "\<not> owned_and_live k owner now
       (map (\<lambda>s. if Session.session_id s = k then s\<lparr>is_active := False\<rparr> else s) db)"
  unfolding owned_and_live_def using revoked_target_inactive [of _ k db] by blast

lemma revoked_target_not_returned:
  fixes db :: db_table
  shows "fst (DatabaseSessionStore_get_session (Some k) later
       (map (\<lambda>s. if Session.session_id s = k then s\<lparr>is_active := False\<rparr> else s) db))
     = None"
proof -
  have "find (active_with_id (Some k))
          (map (\<lambda>s. if Session.session_id s = k then s\<lparr>is_active := False\<rparr> else s) db)
        = None"
    unfolding find_active_None using revoked_target_inactive [of _ k db] by blast
  then show ?thesis
    unfolding DatabaseSessionStore_get_session_def by (simp del: set_map map_map)
qed

lemma guard_session_is_live:
  assumes "get_current_user_for_session_ops (Some k) now db0 = (Inr cur, db)"
  shows "owned_and_live k (email cur) now db \<and> user_session.session_id cur = k"
proof -
  from assms obtain r where
    r: "find (active_with_id (Some k)) db0 = Some r" "\<not> is_expired r now"
    and cur: "email cur = Session.user_email r" "user_session.session_id cur = k"
    and db: "db = update_first (active_with_id (Some k)) (\<lambda>s. s\<lparr>Session.last_accessed := now\<rparr>) db0"
    by (auto simp: get_current_user_for_session_ops_def DatabaseSessionStore_get_session_def
        split: if_splits option.splits prod.splits)
  from r(1) have "active_with_id (Some k) r" by (auto simp: find_Some_iff)
  moreover from r(1) db have "r\<lparr>Session.last_accessed := now\<rparr> \<in> set db"
    by (simp add: find_update_first)
  ultimately show ?thesis using r(2) cur
    by (auto simp: owned_and_live_def active_with_id_def has_id_def is_expired_def
        intro!: bexI [of _ "r\<lparr>Session.last_accessed := now\<rparr>"])
qed

text \<open>
  C8. On a table with unique identifiers, \<^verbatim>\<open>terminate_session\<close> answers 404 (never a
  403) and changes nothing when the target is not a live session of the acting user:
  unknown, somebody else's, revoked or expired. It answers 400 and changes nothing when
  the target is the acting user's own current session, in particular whenever the
  current session is the one the guard has just accepted. Otherwise it revokes the
  target: the flag \<open>is_active\<close> of the target row becomes \<open>False\<close>, every other row and
  every other field stays as it was, the target is no longer a live session of the
  acting user, and no later lookup returns it.
\<close>

theorem C8_terminate_session:
  assumes "distinct (map Session.session_id db)" and "target \<noteq> []"
  shows "(\<not> owned_and_live target (email cur) now db \<longrightarrow>
            terminate_session target cur now db
              = (Inl (HTTPException 404 ''Session not found or doesn't belong to you''), db))
       \<and> (owned_and_live target (email cur) now db \<and> target = user_session.session_id cur \<longrightarrow>
            terminate_session target cur now db
              = (Inl (HTTPException 400 ''Cannot terminate current session. Use logout instead.''), db))
       \<and> (owned_and_live target (email cur) now db \<and> target \<noteq> user_session.session_id cur \<longrightarrow>
            terminate_session target cur now db
              = (Inr ''Session terminated successfully'',
                 map (\<lambda>s. if Session.session_id s = target
                           then s\<lparr>is_active := False\<rparr> else s) db)
          \<and> (\<exists>s\<in>set db. Session.session_id s = target \<and> is_active s)
          \<and> (\<forall>s\<in>set (snd (terminate_session target cur now db)).
                Session.session_id s = target \<longrightarrow> \<not> is_active s)
          \<and> \<not> owned_and_live target (email cur) now (snd (terminate_session target cur now db))
          \<and> fst (DatabaseSessionStore_get_session (Some target) later
                   (snd (terminate_session target cur now db))) = None)
       \<and> (get_current_user_for_session_ops (Some target) now db0 = (Inr cur, db) \<longrightarrow>
            terminate_session target cur now db
              = (Inl (HTTPException 400 ''Cannot terminate current session. Use logout instead.''), db))"
proof (intro conjI impI)
  show "terminate_session target cur now db
          = (Inl (HTTPException 404 ''Session not found or doesn't belong to you''), db)"
    if "\<not> owned_and_live target (email cur) now db"
    using that by (rule terminate_not_found)
  show "terminate_session target cur now db
          = (Inl (HTTPException 400 ''Cannot terminate current session. Use logout instead.''), db)"
    if "owned_and_live target (email cur) now db \<and> target = user_session.session_id cur"
    using that terminate_own [of target cur now db] by blast
  show "terminate_session target cur now db
          = (Inl (HTTPException 400 ''Cannot terminate current session. Use logout instead.''), db)"
    if "get_current_user_for_session_ops (Some target) now db0 = (Inr cur, db)"
    using guard_session_is_live [OF that] terminate_own [of target cur now db] by blast
next
  assume a: "owned_and_live target (email cur) now db \<and> target \<noteq> user_session.session_id cur"
  then have t: "terminate_session target cur now db
      = (Inr ''Session terminated successfully'',
         map (\<lambda>s. if Session.session_id s = target then s\<lparr>is_active := False\<rparr> else s) db)"
    using assms terminate_other [of target cur now db] by blast
  show "terminate_session target cur now db
      = (Inr ''Session terminated successfully'',
         map (\<lambda>s. if Session.session_id s = target then s\<lparr>is_active := False\<rparr> else s) db)"
    by (rule t)
  show "\<exists>s\<in>set db. Session.session_id s = target \<and> is_active s"
    using a by (auto simp: owned_and_live_def)
  show "\<forall>s\<in>set (snd (terminate_session target cur now db)).
          Session.session_id s = target \<longrightarrow> \<not> is_active s"
    unfolding t snd_conv using revoked_target_inactive [of _ target db] by blast
  show "\<not> owned_and_live target (email cur) now (snd (terminate_session target cur now db))"
    unfolding t snd_conv by (rule revoked_target_not_live)
  show "fst (DatabaseSessionStore_get_session (Some target) later
               (snd (terminate_session target cur now db))) = None"
    unfolding t snd_conv by (rule revoked_target_not_returned)
qed

lemma three_rows_owned_and_live: "\<not> owned_and_live ''nope'' ''alice@example.com'' 10 three_rows"
  "\<not> owned_and_live ''s3'' ''alice@example.com'' 10 three_rows"
  "owned_and_live ''s1'' ''alice@example.com'' 10 three_rows"
  "owned_and_live ''s2'' ''alice@example.com'' 10 three_rows"
  by (simp_all add: owned_and_live_def three_rows_def alice_row_def is_expired_def)

text \<open>
  On the table of three sessions, with Alice acting through \<open>s1\<close>: her own session is
  refused with 400, an unknown identifier and Bob's session with 404, all three leaving
  the table as it was; terminating \<open>s2\<close> succeeds and leaves the table with \<open>s2\<close>
  inactive, after which \<open>s2\<close> is neither listed nor returned by a lookup.
\<close>

theorem C8_terminate_session_witness:
  "get_current_user_for_session_ops (Some ''s1'') 10 three_rows = (Inr alice_user, three_rows)
   \<and> terminate_session ''s1'' alice_user 10 three_rows
       = (Inl (HTTPException 400 ''Cannot terminate current session. Use logout instead.''),
          three_rows)
   \<and> terminate_session ''nope'' alice_user 10 three_rows
       = (Inl (HTTPException 404 ''Session not found or doesn't belong to you''), three_rows)
   \<and> terminate_session ''s3'' alice_user 10 three_rows
       = (Inl (HTTPException 404 ''Session not found or doesn't belong to you''), three_rows)
   \<and> terminate_session ''s2'' alice_user 10 three_rows
       = (Inr ''Session terminated successfully'', three_rows_s2_revoked)
   \<and> map is_active three_rows = [True, True, True]
   \<and> map is_active three_rows_s2_revoked = [True, False, True]
   \<and> \<not> owned_and_live ''s2'' ''alice@example.com'' 10 three_rows_s2_revoked
   \<and> fst (DatabaseSessionStore_get_session (Some ''s2'') 11 three_rows_s2_revoked) = None
   \<and> map session_summary.session_id
        (DatabaseSessionStore_get_user_sessions ''alice@example.com'' 11 three_rows_s2_revoked)
       = [''s1'']"
proof -
  have d: "distinct (map Session.session_id three_rows)"
    by (simp add: three_rows_def alice_row_def)
  have g: "get_current_user_for_session_ops (Some ''s1'') 10 three_rows
             = (Inr alice_user, three_rows)"
    by (simp add: get_current_user_for_session_ops_def DatabaseSessionStore_get_session_def
        py_not_def active_with_id_def has_id_def is_expired_def three_rows_def alice_row_def
        alice_user_def)
  have e: "email alice_user = ''alice@example.com''"
    "user_session.session_id alice_user = ''s1''"
    by (simp_all add: alice_user_def)
  have m: "map (\<lambda>s. if Session.session_id s = ''s2'' then s\<lparr>is_active := False\<rparr> else s)
             three_rows = three_rows_s2_revoked"
    by (simp add: three_rows_def three_rows_s2_revoked_def alice_row_def)
  have f: "map is_active three_rows = [True, True, True]"
    "map is_active three_rows_s2_revoked = [True, False, True]"
    "map session_summary.session_id
        (DatabaseSessionStore_get_user_sessions ''alice@example.com'' 11 three_rows_s2_revoked)
       = [''s1'']"
    by (simp_all add: three_rows_def three_rows_s2_revoked_def alice_row_def
        DatabaseSessionStore_get_user_sessions_def active_of_user_def is_expired_def)
  note o = three_rows_owned_and_live [folded e(1)]
  have t1: "terminate_session ''s1'' alice_user 10 three_rows
       = (Inl (HTTPException 400 ''Cannot terminate current session. Use logout instead.''),
          three_rows)"
    using C8_terminate_session [OF d, of "''s1''" alice_user 10 11 three_rows] o(3) e(2)
    by simp
  have t2: "terminate_session ''nope'' alice_user 10 three_rows
       = (Inl (HTTPException 404 ''Session not found or doesn't belong to you''), three_rows)"
    using C8_terminate_session [OF d, of "''nope''" alice_user 10 11 three_rows] o(1)
    by simp
  have t3: "terminate_session ''s3'' alice_user 10 three_rows
       = (Inl (HTTPException 404 ''Session not found or doesn't belong to you''), three_rows)"
    using C8_terminate_session [OF d, of "''s3''" alice_user 10 11 three_rows] o(2)
    by simp
  have c4: "owned_and_live ''s2'' (email alice_user) 10 three_rows
            \<and> ''s2'' \<noteq> user_session.session_id alice_user"
    using o(4) e(2) by simp
  have n: "''s2'' \<noteq> []" by simp
  note t4 = mp [OF C8_terminate_session [OF d n, of alice_user 10 11 three_rows,
      THEN conjunct2, THEN conjunct2, THEN conjunct1] c4]
  from t4 have t4a: "terminate_session ''s2'' alice_user 10 three_rows
       = (Inr ''Session terminated successfully'', three_rows_s2_revoked)"
    unfolding m by blast
  from t4 have t4b: "\<not> owned_and_live ''s2'' ''alice@example.com'' 10 three_rows_s2_revoked"
    "fst (DatabaseSessionStore_get_session (Some ''s2'') 11 three_rows_s2_revoked) = None"
    unfolding t4a snd_conv e(1) by blast+
  from g t1 t2 t3 t4a t4b f show ?thesis by blast
qed

section \<open>Lookup (C3)\<close>

lemma find_unique_row:
  assumes "distinct (map Session.session_id db)" and "r \<in> set db"
  shows "find (\<lambda>x. Session.session_id x = Session.session_id r \<and> Q x) db
           = (if Q r then Some r else None)"
  using assms
proof (induction db)
  case Nil
  then show ?case by simp
next
  case (Cons x xs)
  show ?case
  proof (cases "x = r")
    case True
    with Cons.prems have "\<forall>y\<in>set xs. Session.session_id y \<noteq> Session.session_id r"
      by (auto simp: image_iff)
    then have "find (\<lambda>x. Session.session_id x = Session.session_id r \<and> Q x) xs = None"
      by (auto simp: find_None_iff)
    with True show ?thesis by simp
  next
    case False
    with Cons.prems have "r \<in> set xs" "Session.session_id x \<noteq> Session.session_id r"
      by (auto simp: image_iff)
    with Cons show ?thesis by simp
  qed
qed

lemma active_with_id_eq:
  "active_with_id (Some k) = (\<lambda>s. Session.session_id s = k \<and> is_active s)"
  by (auto simp: active_with_id_def has_id_def)

lemma has_id_eq: "has_id (Some k) = (\<lambda>s. Session.session_id s = k \<and> True)"
  by (auto simp: has_id_def)

lemma deactivate_inactive: "\<not> is_active s \<Longrightarrow> deactivate s = s"
  by (simp add: deactivate_def)

lemma map_deactivate_id:
  assumes "\<forall>s\<in>set db. Session.session_id s = k \<longrightarrow> \<not> is_active s"
  shows "map (\<lambda>s. if Session.session_id s = k then deactivate s else s) db = db"
  using assms by (induction db) (auto simp: deactivate_inactive)

lemma get_session_db_cases:
  assumes "distinct (map Session.session_id db)" and "r \<in> set db"
    and "Session.session_id r = k" and "k \<noteq> []"
  shows "(is_active r \<and> now \<le> Session.expires_at r \<longrightarrow>
            DatabaseSessionStore_get_session (Some k) now db
              = (Some \<lparr>session_data.user_email = Session.user_email r,
                       session_data.created_at = Session.created_at r,
                       session_data.expires_at = Session.expires_at r,
                       session_data.last_accessed = now,
                       session_data.session_id = k\<rparr>,
                 map (\<lambda>s. if Session.session_id s = k
                           then s\<lparr>Session.last_accessed := now\<rparr> else s) db))
       \<and> (\<not> (is_active r \<and> now \<le> Session.expires_at r) \<longrightarrow>
            DatabaseSessionStore_get_session (Some k) now db
              = (None, map (\<lambda>s. if Session.session_id s = k then deactivate s else s) db))"
proof -
  have f: "find (active_with_id (Some k)) db = (if is_active r then Some r else None)"
    using find_unique_row [OF assms(1,2), of is_active] assms(3)
    by (simp add: active_with_id_eq)
  have g: "find (has_id (Some k)) db = Some r"
    using find_unique_row [OF assms(1,2), of "\<lambda>_. True"] assms(3)
    by (simp add: has_id_eq)
  have u1: "update_first (active_with_id (Some k)) h db
      = map (\<lambda>s. if active_with_id (Some k) s then h s else s) db" for h
    by (rule update_first_unique [OF assms(1), of _ k]) (simp add: active_with_id_def has_id_def)
  have u2: "update_first (has_id (Some k)) h db
      = map (\<lambda>s. if Session.session_id s = k then h s else s) db" for h
    using update_first_unique [OF assms(1), of "has_id (Some k)" k h]
    by (simp add: has_id_def)
  have only: "s \<in> set db \<Longrightarrow> Session.session_id s = k \<Longrightarrow> s = r" for s
    using assms(1,2,3) by (metis distinct_map inj_onD)
  show ?thesis
  proof (cases "is_active r")
    case True
    then have act: "s \<in> set db \<Longrightarrow> active_with_id (Some k) s \<longleftrightarrow> Session.session_id s = k" for s
      using only by (auto simp: active_with_id_def has_id_def)
    have "map (\<lambda>s. if active_with_id (Some k) s then h s else s) db
        = map (\<lambda>s. if Session.session_id s = k then h s else s) db" for h
      using act by (auto intro!: map_cong)
    with True f g u1 u2 assms(3,4) show ?thesis
      by (auto simp: DatabaseSessionStore_get_session_def DatabaseSessionStore_delete_session_def
          py_not_def is_expired_def)
  next
    case False
    then have "\<forall>s\<in>set db. Session.session_id s = k \<longrightarrow> \<not> is_active s"
      using only by auto
    then have "map (\<lambda>s. if Session.session_id s = k then deactivate s else s) db = db"
      by (rule map_deactivate_id)
    with False f assms(4) show ?thesis
      by (simp add: DatabaseSessionStore_get_session_def py_not_def)
  qed
qed

lemma get_session_memory_cases:
  assumes "map_of (sessions st) k = Some s" and "k \<noteq> []"
  shows "(now \<le> session_dict.expires_at s \<longrightarrow>
            fst (SessionStore_get_session (Some k) now st)
              = Some (s\<lparr>session_dict.last_accessed := now\<rparr>)
          \<and> map_of (sessions (snd (SessionStore_get_session (Some k) now st)))
              = (map_of (sessions st))(k \<mapsto> s\<lparr>session_dict.last_accessed := now\<rparr>))
       \<and> (\<not> now \<le> session_dict.expires_at s \<longrightarrow>
            fst (SessionStore_get_session (Some k) now st) = None
          \<and> map_of (sessions (snd (SessionStore_get_session (Some k) now st)))
              = (map_of (sessions st))(k := None))"
  using assms
  by (auto simp: SessionStore_get_session_def SessionStore_delete_session_def in_sessions_def
      py_not_def Let_def update_conv' delete_conv')

text \<open>
  C3 (amended at the expiry instant). For a stored identifier, the lookup returns the
  record with its principal, and sets \<open>last_accessed\<close> to the clock reading, exactly
  when the record is active and the clock is not past \<open>expires_at\<close>
  (\<open>now \<le> expires_at\<close>: at the instant of expiry the record is still returned).
  Otherwise it returns nothing and leaves the record dead: the row deactivated in the
  table, the key removed from the dictionary. Nothing else in the store changes.
\<close>

theorem C3_get_session:
  assumes "k \<noteq> []"
    and "distinct (map Session.session_id db)" and "r \<in> set db" and "Session.session_id r = k"
    and "map_of (sessions st) k = Some s"
  shows "(is_active r \<and> now \<le> Session.expires_at r \<longrightarrow>
            DatabaseSessionStore_get_session (Some k) now db
              = (Some \<lparr>session_data.user_email = Session.user_email r,
                       session_data.created_at = Session.created_at r,
                       session_data.expires_at = Session.expires_at r,
                       session_data.last_accessed = now,
                       session_data.session_id = k\<rparr>,
                 map (\<lambda>s. if Session.session_id s = k
                           then s\<lparr>Session.last_accessed := now\<rparr> else s) db))
       \<and> (\<not> (is_active r \<and> now \<le> Session.expires_at r) \<longrightarrow>
            DatabaseSessionStore_get_session (Some k) now db
              = (None, map (\<lambda>s. if Session.session_id s = k then deactivate s else s) db))
       \<and> (now \<le> session_dict.expires_at s \<longrightarrow>
            fst (SessionStore_get_session (Some k) now st)
              = Some (s\<lparr>session_dict.last_accessed := now\<rparr>)
          \<and> map_of (sessions (snd (SessionStore_get_session (Some k) now st)))
              = (map_of (sessions st))(k \<mapsto> s\<lparr>session_dict.last_accessed := now\<rparr>))
       \<and> (\<not> now \<le> session_dict.expires_at s \<longrightarrow>
            fst (SessionStore_get_session (Some k) now st) = None
          \<and> map_of (sessions (snd (SessionStore_get_session (Some k) now st)))
              = (map_of (sessions st))(k := None))"
  using get_session_db_cases [OF assms(2,3,4,1), of now]
    get_session_memory_cases [OF assms(5,1), of now]
  by blast

text \<open>
  Scenario A in both stores: created at second 0 for 30 minutes, the session is returned
  with principal \<open>alice@example.com\<close> at second 10 and is absent at second 1860.
\<close>

theorem C3_get_session_witness:
  "SessionStore_create_session ''s1'' ''alice@example.com'' 30 0 (SessionStore_init 0)
     = (''s1'', alice_store)
   \<and> map_option session_dict.user_email (fst (SessionStore_get_session (Some ''s1'') 10 alice_store))
       = Some ''alice@example.com''
   \<and> fst (SessionStore_get_session (Some ''s1'') 1860 alice_store) = None
   \<and> DatabaseSessionStore_create_session ''s1'' ''alice@example.com'' (Some 30) 0 []
       = Inr (''s1'', [alice_row])
   \<and> DatabaseSessionStore_get_session (Some ''s1'') 10 [alice_row]
       = (Some (session_data alice_user), alice_table)
   \<and> session_data.user_email (session_data alice_user) = ''alice@example.com''
   \<and> DatabaseSessionStore_get_session (Some ''s1'') 1860 [alice_row]
       = (None, [alice_row\<lparr>is_active := False\<rparr>])"
proof -
  have m: "map_of (sessions alice_store) ''s1'' = Some (snd (hd (sessions alice_store)))"
    by (simp add: alice_store_def)
  have c: "SessionStore_create_session ''s1'' ''alice@example.com'' 30 0 (SessionStore_init 0)
     = (''s1'', alice_store)"
    "DatabaseSessionStore_create_session ''s1'' ''alice@example.com'' (Some 30) 0 []
       = Inr (''s1'', [alice_row])"
    by (simp_all add: mem_defs db_defs timedelta_minutes_def alice_store_def alice_row_def Let_def)
  show ?thesis
    using c
      C3_get_session [of "''s1''" "[alice_row]" alice_row alice_store _ 10, OF _ _ _ _ m]
      C3_get_session [of "''s1''" "[alice_row]" alice_row alice_store _ 1860, OF _ _ _ _ m]
    by (simp add: alice_store_def alice_row_def alice_user_def alice_table_def deactivate_def)
qed

text \<open>
  Read with "now before \<open>expires_at\<close>", the claim fails at the instant of expiry: at
  second 1800 the session created for 30 minutes is returned by both stores.
\<close>

theorem C3_expiry_instant_counterexample:
  "fst (DatabaseSessionStore_get_session (Some ''s1'') 1800 [alice_row]) \<noteq> None
   \<and> \<not> (is_active alice_row \<and> 1800 < Session.expires_at alice_row)
   \<and> fst (SessionStore_get_session (Some ''s1'') 1800 alice_store) \<noteq> None
   \<and> \<not> (1800 < session_dict.expires_at (snd (hd (sessions alice_store))))"
  by (simp add: mem_defs db_defs py_not_def alice_store_def alice_row_def Let_def)

section \<open>Revoking all sessions of a principal (C9)\<close>

lemma fold_delete_filter:
  "fold AList.delete ks xs = filter (\<lambda>p. fst p \<notin> set ks) xs"
proof (induction ks arbitrary: xs)
  case Nil
  then show ?case by simp
next
  case (Cons k ks)
  have "AList.delete k xs = filter (\<lambda>p. fst p \<noteq> k) xs"
    by (auto simp: AList.delete_eq intro: filter_cong)
  with Cons show ?case by (auto intro: filter_cong)
qed

lemma delete_user_sessions_memory:
  assumes "distinct (map fst xs)"
  shows "filter (\<lambda>p. fst p \<notin> set (map fst (filter (\<lambda>(sid, s). session_dict.user_email s = e) xs))) xs
       = filter (\<lambda>(sid, s). session_dict.user_email s \<noteq> e) xs"
proof (rule filter_cong [OF refl])
  fix p assume p: "p \<in> set xs"
  have "fst p \<in> set (map fst (filter (\<lambda>(sid, s). session_dict.user_email s = e) xs))
        \<longleftrightarrow> session_dict.user_email (snd p) = e"
  proof
    assume "fst p \<in> set (map fst (filter (\<lambda>(sid, s). session_dict.user_email s = e) xs))"
    then obtain q where q: "q \<in> set xs" "session_dict.user_email (snd q) = e" "fst q = fst p"
      by (auto simp: case_prod_beta)
    with p assms have "q = p" by (metis distinct_map inj_onD)
    with q show "session_dict.user_email (snd p) = e" by simp
  next
    assume "session_dict.user_email (snd p) = e"
    with p show "fst p \<in> set (map fst (filter (\<lambda>(sid, s). session_dict.user_email s = e) xs))"
      by (auto simp: image_iff case_prod_beta intro!: exI [of _ "snd p"])
  qed
  then show "(fst p \<notin> set (map fst (filter (\<lambda>(sid, s). session_dict.user_email s = e) xs)))
      = (case p of (sid, s) \<Rightarrow> session_dict.user_email s \<noteq> e)"
    by (simp add: case_prod_beta)
qed

lemma active_of_user_eq:
  "active_of_user p = (\<lambda>s. Session.user_email s = p \<and> is_active s)"
  by (auto simp: active_of_user_def)

lemma delete_all_database_rows:
  "map (\<lambda>s. if active_of_user p s then deactivate s else s) db
     = map (\<lambda>s. if Session.user_email s = p then s\<lparr>is_active := False\<rparr> else s) db"
  by (rule map_cong) (auto simp: active_of_user_def deactivate_def)


lemma db_delete_all_fst:
  "fst (DatabaseSessionStore_delete_all_user_sessions p db)
     = length (filter (\<lambda>s. Session.user_email s = p \<and> is_active s) db)"
  by (simp add: DatabaseSessionStore_delete_all_user_sessions_def Let_def active_of_user_eq)

lemma db_delete_all_snd:
  "snd (DatabaseSessionStore_delete_all_user_sessions p db)
     = map (\<lambda>s. if Session.user_email s = p then s\<lparr>is_active := False\<rparr> else s) db"
  by (simp add: DatabaseSessionStore_delete_all_user_sessions_def Let_def
      delete_all_database_rows)




lemma mem_delete_all_fst:
  "fst (SessionStore_delete_user_sessions p st)
     = length (filter (\<lambda>(sid, s). session_dict.user_email s = p) (sessions st))"
  by (simp add: SessionStore_delete_user_sessions_def Let_def)

lemma mem_delete_all_snd:
  "distinct (map fst (sessions st)) \<Longrightarrow>
   snd (SessionStore_delete_user_sessions p st)
     = st\<lparr>sessions := filter (\<lambda>(sid, s). session_dict.user_email s \<noteq> p) (sessions st)\<rparr>"
  using delete_user_sessions_memory [of "sessions st" p]
  by (simp add: SessionStore_delete_user_sessions_def Let_def fold_delete_filter)








section \<open>The two stores side by side (C2)\<close>

text \<open>
  The stores are compared through the relation \<^const>\<open>related\<close>: the in-memory store
  holds the records of the active rows and, besides, those of the rows in a set \<open>Z\<close>
  that the database store has swept after their expiry while the in-memory store, whose
  sweep runs at most every 300 seconds, has not yet dropped them. Every operation of an
  admissible run preserves the relation, for some such set, and returns the same result
  from both stores.
\<close>

subsection \<open>The relation and the table\<close>

lemma related_later: "related zone Z t0 st db \<Longrightarrow> t0 \<le> now \<Longrightarrow> related zone Z now st db"
  by (fastforce simp: related_def)

lemma held_keys: "fst ` set (held zone Z db) \<subseteq> Session.session_id ` set db"
  by (auto simp: held_def entry_of_row_def)

lemma distinct_held: "distinct (map Session.session_id db) \<Longrightarrow> distinct (map fst (held zone Z db))"
  by (induction db) (auto simp: held_def entry_of_row_def image_iff)

lemma map_of_held:
  assumes "distinct (map Session.session_id db)" and "r \<in> set db"
  shows "map_of (held zone Z db) (Session.session_id r)
           = (if kept Z r then Some (dict_of_row zone r) else None)"
  using assms
proof (induction db)
  case Nil
  then show ?case by simp
next
  case (Cons x xs)
  show ?case
  proof (cases "x = r")
    case True
    with Cons.prems have "Session.session_id r \<notin> Session.session_id ` set xs" by simp
    then have "map_of (held zone Z xs) (Session.session_id r) = None"
      using held_keys [of zone Z xs] by (auto simp: map_of_eq_None_iff)
    with True show ?thesis by (simp add: held_def entry_of_row_def)
  next
    case False
    with Cons.prems have "r \<in> set xs" "Session.session_id x \<noteq> Session.session_id r"
      by (auto simp: image_iff)
    with Cons show ?thesis by (simp add: held_def entry_of_row_def)
  qed
qed

lemma map_of_held_unknown:
  "k \<notin> Session.session_id ` set db \<Longrightarrow> map_of (held zone Z db) k = None"
  using held_keys [of zone Z db] by (auto simp: map_of_eq_None_iff)

lemma held_update:
  assumes "distinct (map Session.session_id db)" and "r \<in> set db"
    and "kept Z r" and "kept Z (f r)" and "Session.session_id (f r) = Session.session_id r"
  shows "AList.update (Session.session_id r) (dict_of_row zone (f r)) (held zone Z db)
       = held zone Z (map (\<lambda>s. if Session.session_id s = Session.session_id r then f s else s) db)"
  using assms(1,2)
proof (induction db)
  case Nil
  then show ?case by simp
next
  case (Cons x xs)
  show ?case
  proof (cases "x = r")
    case True
    with Cons.prems have "\<forall>y\<in>set xs. Session.session_id y \<noteq> Session.session_id r"
      by (auto simp: image_iff)
    then have "map (\<lambda>s. if Session.session_id s = Session.session_id r then f s else s) xs = xs"
      by (induction xs) auto
    with True assms(3,4,5) show ?thesis
      by (simp add: held_def entry_of_row_def)
  next
    case False
    with Cons.prems have "r \<in> set xs" "Session.session_id x \<noteq> Session.session_id r"
      by (auto simp: image_iff)
    with Cons show ?thesis by (simp add: held_def entry_of_row_def)
  qed
qed

lemma held_delete:
  "AList.delete k (held zone Z db)
     = map (entry_of_row zone) (filter (\<lambda>r. kept Z r \<and> Session.session_id r \<noteq> k) db)"
  by (induction db) (auto simp: held_def entry_of_row_def)

lemma held_cong:
  assumes "\<And>r. r \<in> set db \<Longrightarrow> kept Z' (f r) = P r"
    and "\<And>r. r \<in> set db \<Longrightarrow> P r \<Longrightarrow> entry_of_row zone (f r) = entry_of_row zone r"
  shows "held zone Z' (map f db) = map (entry_of_row zone) (filter P db)"
  using assms by (induction db) (auto simp: held_def)

lemma map_update_ids:
  assumes "\<And>s. Session.session_id (f s) = Session.session_id s"
  shows "map Session.session_id (map (\<lambda>s. if P s then f s else s) db) = map Session.session_id db"
  using assms by (induction db) auto

lemma image_update_ids:
  assumes "\<And>s. Session.session_id (f s) = Session.session_id s"
  shows "Session.session_id ` set (map (\<lambda>s. if P s then f s else s) db)
           = Session.session_id ` set db"
  using map_update_ids [of f P db, OF assms] by (metis set_map)

lemma relatedI:
  assumes "distinct (map Session.session_id db)"
    and "[] \<notin> Session.session_id ` set db"
    and "sessions st = held zone Z db"
    and "Z \<subseteq> Session.session_id ` set db"
    and "\<And>r. r \<in> set db \<Longrightarrow> Session.session_id r \<in> Z \<Longrightarrow>
           \<not> is_active r \<and> Session.expires_at r < now"
  shows "related zone Z now st db"
  using assms unfolding related_def by blast

lemma relatedD:
  assumes "related zone Z now st db"
  shows "distinct (map Session.session_id db)"
    and "[] \<notin> Session.session_id ` set db"
    and "sessions st = held zone Z db"
    and "Z \<subseteq> Session.session_id ` set db"
    and "\<And>r. r \<in> set db \<Longrightarrow> Session.session_id r \<in> Z \<Longrightarrow>
           \<not> is_active r \<and> Session.expires_at r < now"
  using assms unfolding related_def by blast+

lemma related_update:
  assumes rel: "related zone Z now st db" and r: "r \<in> set db" "is_active r"
    and f: "\<And>s. Session.session_id (f s) = Session.session_id s" "is_active (f r)"
  shows "related zone Z now
           (st\<lparr>sessions := AList.update (Session.session_id r) (dict_of_row zone (f r)) (sessions st)\<rparr>)
           (map (\<lambda>s. if Session.session_id s = Session.session_id r then f s else s) db)"
proof (rule relatedI)
  note rd = relatedD [OF rel]
  let ?db = "map (\<lambda>s. if Session.session_id s = Session.session_id r then f s else s) db"
  from rd(5) [OF r(1)] r(2) have notZ: "Session.session_id r \<notin> Z" by blast
  show "distinct (map Session.session_id ?db)"
    unfolding map_update_ids [OF f(1)] by (rule rd(1))
  show "[] \<notin> Session.session_id ` set ?db"
    unfolding image_update_ids [OF f(1)] by (rule rd(2))
  show "Z \<subseteq> Session.session_id ` set ?db"
    unfolding image_update_ids [OF f(1)] by (rule rd(4))
  have "AList.update (Session.session_id r) (dict_of_row zone (f r)) (held zone Z db) = held zone Z ?db"
    using rd(1) r f by (intro held_update) (simp_all add: kept_def)
  then show "sessions (st\<lparr>sessions := AList.update (Session.session_id r) (dict_of_row zone (f r))
                 (sessions st)\<rparr>) = held zone Z ?db"
    using rd(3) by simp
  show "\<not> is_active s \<and> Session.expires_at s < now"
    if "s \<in> set ?db" "Session.session_id s \<in> Z" for s
  proof -
    from that(1) obtain s0 where s0: "s0 \<in> set db"
      "s = (if Session.session_id s0 = Session.session_id r then f s0 else s0)"
      by auto
    show ?thesis
    proof (cases "Session.session_id s0 = Session.session_id r")
      case True
      with s0 f(1) have "Session.session_id s = Session.session_id r" by simp
      with that(2) notZ show ?thesis by simp
    next
      case False
      with s0 have "s = s0" by simp
      with s0(1) that(2) rd(5) show ?thesis by blast
    qed
  qed
qed

lemma deactivate_id [simp]: "Session.session_id (deactivate s) = Session.session_id s"
  by (simp add: deactivate_def)

lemma entry_deactivate [simp]: "entry_of_row zone (deactivate s) = entry_of_row zone s"
  by (simp add: entry_of_row_def dict_of_row_def deactivate_def)

lemma related_delete:
  assumes rel: "related zone Z now st db"
  shows "related zone (Z - {k}) now
           (st\<lparr>sessions := AList.delete k (sessions st)\<rparr>)
           (map (\<lambda>s. if Session.session_id s = k then deactivate s else s) db)"
proof (rule relatedI)
  note rd = relatedD [OF rel]
  let ?db = "map (\<lambda>s. if Session.session_id s = k then deactivate s else s) db"
  show "distinct (map Session.session_id ?db)"
    unfolding map_update_ids [of deactivate, OF deactivate_id] by (rule rd(1))
  show "[] \<notin> Session.session_id ` set ?db"
    unfolding image_update_ids [of deactivate, OF deactivate_id] by (rule rd(2))
  show "Z - {k} \<subseteq> Session.session_id ` set ?db"
    unfolding image_update_ids [of deactivate, OF deactivate_id] using rd(4) by blast
  have "held zone (Z - {k}) ?db
      = map (entry_of_row zone) (filter (\<lambda>r. kept Z r \<and> Session.session_id r \<noteq> k) db)"
    by (rule held_cong) (auto simp: kept_def deactivate_def)
  then show "sessions (st\<lparr>sessions := AList.delete k (sessions st)\<rparr>) = held zone (Z - {k}) ?db"
    using rd(3) by (simp add: held_delete)
  show "\<not> is_active s \<and> Session.expires_at s < now"
    if "s \<in> set ?db" "Session.session_id s \<in> Z - {k}" for s
  proof -
    from that(1) obtain s0 where s0: "s0 \<in> set db"
      "s = (if Session.session_id s0 = k then deactivate s0 else s0)"
      by auto
    with that(2) have "s = s0" by (cases "Session.session_id s0 = k") auto
    with s0(1) that(2) rd(5) show ?thesis by blast
  qed
qed

subsection \<open>Listing, revoking all, sweeping\<close>

lemma listing_related:
  assumes "related zone Z now st db"
  shows "SessionStore_get_user_sessions e (now + zone) st
           = map (local_summary zone) (DatabaseSessionStore_get_user_sessions e now db)"
proof -
  note rd = relatedD [OF assms]
  have "(\<And>r. r \<in> set xs \<Longrightarrow> Session.session_id r \<in> Z \<Longrightarrow>
            \<not> is_active r \<and> Session.expires_at r < now) \<Longrightarrow>
        map (\<lambda>(sid, s). \<lparr>session_summary.session_id = sid,
                       session_summary.created_at = session_dict.created_at s,
                       session_summary.last_accessed = session_dict.last_accessed s,
                       session_summary.expires_at = session_dict.expires_at s\<rparr>)
          (filter (\<lambda>(sid, s). session_dict.user_email s = e
                              \<and> now + zone \<le> session_dict.expires_at s)
             (held zone Z xs))
        = map (local_summary zone)
           (map (\<lambda>s. \<lparr>session_summary.session_id = Session.session_id s,
                session_summary.created_at = Session.created_at s,
                session_summary.last_accessed = Session.last_accessed s,
                session_summary.expires_at = Session.expires_at s\<rparr>)
             (filter (\<lambda>s. \<not> is_expired s now) (filter (active_of_user e) xs)))" for xs
  proof (induction xs)
    case Nil
    then show ?case by (simp add: held_def)
  next
    case (Cons x xs)
    have "Session.session_id x \<in> Z \<Longrightarrow> \<not> is_active x \<and> Session.expires_at x < now"
      using Cons.prems [of x] by simp
    moreover have "held zone Z (x # xs) = (if kept Z x then entry_of_row zone x # held zone Z xs else held zone Z xs)"
      by (simp add: held_def)
    ultimately show ?case
      using Cons.IH Cons.prems
      by (auto simp: kept_def entry_of_row_def dict_of_row_def active_of_user_def is_expired_def
          local_summary_def)
  qed
  from this [of db] rd(3) rd(5) show ?thesis
    by (simp add: SessionStore_get_user_sessions_def DatabaseSessionStore_get_user_sessions_def)
qed

lemma not_reclaimed:
  assumes rel: "related zone Z now st db"
    and adm: "list_all (\<lambda>(k, s). session_dict.user_email s = e \<longrightarrow>
                 find (active_with_id (Some k)) db \<noteq> None) (sessions st)"
    and r: "r \<in> set db" "Session.user_email r = e"
  shows "Session.session_id r \<notin> Z"
proof
  assume z: "Session.session_id r \<in> Z"
  note rd = relatedD [OF rel]
  from z have "kept Z r" by (simp add: kept_def)
  with r(1) rd(3) have "entry_of_row zone r \<in> set (sessions st)"
    by (simp add: held_def)
  with adm r(2) have "find (active_with_id (Some (Session.session_id r))) db \<noteq> None"
    by (auto simp: list_all_iff entry_of_row_def dict_of_row_def)
  then obtain r' where r': "r' \<in> set db" "Session.session_id r' = Session.session_id r"
    "is_active r'"
    by (auto simp: find_None_iff active_with_id_def has_id_def)
  with rd(1) r(1) have "r' = r" by (metis distinct_map inj_onD)
  with r'(3) rd(5) [OF r(1) z] show False by simp
qed

lemma related_revoke_all:
  assumes rel: "related zone Z now st db"
    and adm: "list_all (\<lambda>(k, s). session_dict.user_email s = e \<longrightarrow>
                 find (active_with_id (Some k)) db \<noteq> None) (sessions st)"
  shows "related zone Z now (snd (SessionStore_delete_user_sessions e st))
           (snd (DatabaseSessionStore_delete_all_user_sessions e db))"
proof -
  note rd = relatedD [OF rel]
  let ?f = "\<lambda>s. s\<lparr>is_active := False\<rparr>"
  let ?g = "\<lambda>s. if Session.user_email s = e then ?f s else s"
  have fid: "\<And>s. Session.session_id (?f s) = Session.session_id s" by simp
  have notZ: "Session.session_id r \<notin> Z" if "r \<in> set db" "Session.user_email r = e" for r
    using not_reclaimed [OF rel adm that] .
  have h: "held zone Z (map ?g db)
      = map (entry_of_row zone) (filter (\<lambda>r. kept Z r \<and> Session.user_email r \<noteq> e) db)"
    by (rule held_cong) (use notZ in \<open>auto simp: kept_def\<close>)
  have m: "filter (\<lambda>(sid, s). session_dict.user_email s \<noteq> e) (held zone Z xs)
      = map (entry_of_row zone) (filter (\<lambda>r. kept Z r \<and> Session.user_email r \<noteq> e) xs)" for xs
    by (induction xs) (auto simp: held_def entry_of_row_def dict_of_row_def)
  have dk: "distinct (map fst (sessions st))"
    using rd(1) rd(3) by (simp add: distinct_held)
  have "related zone Z now
          (st\<lparr>sessions := filter (\<lambda>(sid, s). session_dict.user_email s \<noteq> e) (sessions st)\<rparr>)
          (map ?g db)"
  proof (rule relatedI)
    show "distinct (map Session.session_id (map ?g db))"
      unfolding map_update_ids [of ?f, OF fid] by (rule rd(1))
    show "[] \<notin> Session.session_id ` set (map ?g db)"
      unfolding image_update_ids [of ?f, OF fid] by (rule rd(2))
    show "Z \<subseteq> Session.session_id ` set (map ?g db)"
      unfolding image_update_ids [of ?f, OF fid] by (rule rd(4))
    show "sessions (st\<lparr>sessions := filter (\<lambda>(sid, s). session_dict.user_email s \<noteq> e)
             (sessions st)\<rparr>) = held zone Z (map ?g db)"
      using rd(3) h m by simp
    show "\<not> is_active s \<and> Session.expires_at s < now"
      if "s \<in> set (map ?g db)" "Session.session_id s \<in> Z" for s
    proof -
      from that(1) obtain s0 where s0: "s0 \<in> set db" "s = ?g s0" by auto
      with that(2) notZ [of s0] have "s = s0" by (cases "Session.user_email s0 = e") auto
      with s0(1) that(2) rd(5) show ?thesis by blast
    qed
  qed
  then show ?thesis
    by (simp add: mem_delete_all_snd [OF dk] db_delete_all_snd)
qed

lemma count_revoke_all:
  assumes rel: "related zone Z now st db"
    and adm: "list_all (\<lambda>(k, s). session_dict.user_email s = e \<longrightarrow>
                 find (active_with_id (Some k)) db \<noteq> None) (sessions st)"
  shows "fst (SessionStore_delete_user_sessions e st)
           = fst (DatabaseSessionStore_delete_all_user_sessions e db)"
proof -
  note rd = relatedD [OF rel]
  have notZ: "Session.session_id r \<notin> Z" if "r \<in> set db" "Session.user_email r = e" for r
    using not_reclaimed [OF rel adm that] .
  have "(\<And>r. r \<in> set xs \<Longrightarrow> Session.user_email r = e \<Longrightarrow> Session.session_id r \<notin> Z) \<Longrightarrow>
        length (filter (\<lambda>(sid, s). session_dict.user_email s = e) (held zone Z xs))
          = length (filter (\<lambda>s. Session.user_email s = e \<and> is_active s) xs)" for xs
    by (induction xs) (auto simp: held_def kept_def entry_of_row_def dict_of_row_def)
  from this [of db] notZ rd(3) show ?thesis
    by (simp add: mem_delete_all_fst db_delete_all_fst)
qed

lemma related_cleanup:
  assumes rel: "related zone Z now st db"
  shows "\<exists>Z'. related zone Z' now (SessionStore_cleanup_expired_sessions (now + zone) st)
                 (DatabaseSessionStore_cleanup_expired_sessions now db)"
proof -
  note rd = relatedD [OF rel]
  let ?g = "\<lambda>s. if expired_and_active now s then deactivate s else s"
  have ids: "map Session.session_id (map ?g db) = map Session.session_id db"
    by (rule map_update_ids) simp
  have img: "Session.session_id ` set (map ?g db) = Session.session_id ` set db"
    by (rule image_update_ids) simp
  have only: "s = r" if "s \<in> set db" "r \<in> set db" "Session.session_id s = Session.session_id r"
    for s r using that rd(1) by (metis distinct_map inj_onD)
  show ?thesis
  proof (cases "now + zone - last_cleanup st < cleanup_interval st")
    case True
    define S where "S = {Session.session_id r |r. r \<in> set db \<and> expired_and_active now r}"
    have inS: "Session.session_id r \<in> S" if "r \<in> set db" "expired_and_active now r" for r
      using that unfolding S_def by blast
    have notS: "Session.session_id r \<notin> S" if "r \<in> set db" "\<not> expired_and_active now r" for r
    proof
      assume "Session.session_id r \<in> S"
      then obtain r' where "r' \<in> set db" "expired_and_active now r'"
        "Session.session_id r' = Session.session_id r" unfolding S_def by auto
      with only [of r' r] that show False by auto
    qed
    have subS: "S \<subseteq> Session.session_id ` set db" unfolding S_def by blast
    have "related zone (Z \<union> S) now st (map ?g db)"
    proof (rule relatedI)
      show "distinct (map Session.session_id (map ?g db))" unfolding ids by (rule rd(1))
      show "[] \<notin> Session.session_id ` set (map ?g db)" unfolding img by (rule rd(2))
      show "Z \<union> S \<subseteq> Session.session_id ` set (map ?g db)"
        unfolding img using rd(4) subS by blast
      have "held zone (Z \<union> S) (map ?g db) = map (entry_of_row zone) (filter (kept Z) db)"
      proof (rule held_cong)
        fix r assume r: "r \<in> set db"
        show "kept (Z \<union> S) (?g r) = kept Z r"
        proof (cases "expired_and_active now r")
          case True
          with inS [OF r] show ?thesis by (simp add: kept_def expired_and_active_def)
        next
          case False
          with notS [OF r] show ?thesis by (simp add: kept_def)
        qed
        show "entry_of_row zone (?g r) = entry_of_row zone r" by simp
      qed
      with rd(3) show "sessions st = held zone (Z \<union> S) (map ?g db)" by (simp add: held_def)
      show "\<not> is_active s \<and> Session.expires_at s < now"
        if "s \<in> set (map ?g db)" "Session.session_id s \<in> Z \<union> S" for s
      proof -
        from that(1) obtain s0 where s0: "s0 \<in> set db" "s = ?g s0" by auto
        show ?thesis
        proof (cases "expired_and_active now s0")
          case True
          with s0 show ?thesis by (simp add: expired_and_active_def deactivate_def)
        next
          case False
          with s0 have eq: "s = s0" by simp
          from notS [OF s0(1) False] that(2) eq have "Session.session_id s0 \<in> Z" by simp
          with rd(5) [OF s0(1)] eq show ?thesis by simp
        qed
      qed
    qed
    with True show ?thesis
      by (auto simp: SessionStore_cleanup_expired_sessions_def
          DatabaseSessionStore_cleanup_expired_sessions_def)
  next
    case False
    let ?st = "st\<lparr>sessions := filter (\<lambda>(sid, s). \<not> now + zone > session_dict.expires_at s)
                                (sessions st),
                  last_cleanup := now + zone\<rparr>"
    have "related zone {} now ?st (map ?g db)"
    proof (rule relatedI)
      show "distinct (map Session.session_id (map ?g db))" unfolding ids by (rule rd(1))
      show "[] \<notin> Session.session_id ` set (map ?g db)" unfolding img by (rule rd(2))
      show "{} \<subseteq> Session.session_id ` set (map ?g db)" by simp
      have "held zone {} (map ?g db)
          = map (entry_of_row zone) (filter (\<lambda>r. kept Z r \<and> \<not> now > Session.expires_at r) db)"
      proof (rule held_cong)
        fix r assume r: "r \<in> set db"
        show "kept {} (?g r) = (kept Z r \<and> \<not> now > Session.expires_at r)"
          using rd(5) [OF r]
          by (auto simp: kept_def expired_and_active_def deactivate_def)
        show "entry_of_row zone (?g r) = entry_of_row zone r" by simp
      qed
      moreover have "filter (\<lambda>(sid, s). \<not> now + zone > session_dict.expires_at s) (held zone Z xs)
          = map (entry_of_row zone) (filter (\<lambda>r. kept Z r \<and> \<not> now > Session.expires_at r) xs)" for xs
        by (induction xs) (auto simp: held_def entry_of_row_def dict_of_row_def)
      ultimately show "sessions ?st = held zone {} (map ?g db)"
        using rd(3) by simp
      show "\<not> is_active s \<and> Session.expires_at s < now"
        if "s \<in> set (map ?g db)" "Session.session_id s \<in> {}" for s
        using that by simp
    qed
    with False show ?thesis
      by (auto simp: SessionStore_cleanup_expired_sessions_def
          DatabaseSessionStore_cleanup_expired_sessions_def)
  qed
qed

subsection \<open>The operations on one identifier\<close>

lemma update_absent:
  "k \<notin> fst ` set xs \<Longrightarrow> AList.update k v xs = xs @ [(k, v)]"
  by (induction xs) auto

lemma unknown_id:
  assumes "k \<notin> Session.session_id ` set db"
  shows "find (has_id (Some k)) db = None" and "find (active_with_id (Some k)) db = None"
  using assms by (auto simp: find_None_iff has_id_def active_with_id_def)

lemma memory_get_cases:
  "k \<noteq> [] \<Longrightarrow>
   SessionStore_get_session (Some k) now st =
     (case map_of (sessions st) k of
        None \<Rightarrow> (None, st)
      | Some s \<Rightarrow>
          if now > session_dict.expires_at s
          then (None, st\<lparr>sessions := AList.delete k (sessions st)\<rparr>)
          else (Some (s\<lparr>session_dict.last_accessed := now\<rparr>),
                st\<lparr>sessions := AList.update k (s\<lparr>session_dict.last_accessed := now\<rparr>)
                                  (sessions st)\<rparr>))"
  by (simp add: SessionStore_get_session_def SessionStore_delete_session_def in_sessions_def
      py_not_def Let_def split: option.splits)

lemma memory_extend_cases:
  "SessionStore_extend_session (Some k) m now st =
     (case map_of (sessions st) k of
        None \<Rightarrow> (False, st)
      | Some s \<Rightarrow>
          (True, st\<lparr>sessions := AList.update k
                     (s\<lparr>session_dict.expires_at := now + timedelta_minutes m,
                        session_dict.last_accessed := now\<rparr>) (sessions st)\<rparr>))"
  by (simp add: SessionStore_extend_session_def in_sessions_def split: option.splits)

lemma memory_delete_cases:
  "SessionStore_delete_session (Some k) st =
     (case map_of (sessions st) k of
        None \<Rightarrow> (False, st)
      | Some s \<Rightarrow> (True, st\<lparr>sessions := AList.delete k (sessions st)\<rparr>))"
  by (simp add: SessionStore_delete_session_def in_sessions_def split: option.splits)

lemma database_extend_live:
  assumes "distinct (map Session.session_id db)" and "r \<in> set db"
    and "Session.session_id r = k" and "k \<noteq> []"
    and "is_active r" and "\<not> is_expired r now"
  shows "DatabaseSessionStore_extend_session (Some k) m now db
           = (True, map (\<lambda>s. if Session.session_id s = k
                              then Session_extend_session m now s else s) db)"
proof -
  have f: "find (active_with_id (Some k)) db = Some r"
    using find_unique_row [OF assms(1,2), of is_active] assms(3,5)
    by (simp add: active_with_id_eq)
  have only: "s = r" if "s \<in> set db" "Session.session_id s = k" for s
    using that assms(1,2,3) by (metis distinct_map inj_onD)
  have "update_first (active_with_id (Some k)) (Session_extend_session m now) db
      = map (\<lambda>s. if active_with_id (Some k) s then Session_extend_session m now s else s) db"
    by (rule update_first_unique [OF assms(1), of _ k]) (simp add: active_with_id_def has_id_def)
  also have "\<dots> = map (\<lambda>s. if Session.session_id s = k
                              then Session_extend_session m now s else s) db"
    using only assms(5) by (intro map_cong) (auto simp: active_with_id_def has_id_def)
  finally show ?thesis
    using f assms(4,6) by (simp add: DatabaseSessionStore_extend_session_def py_not_def)
qed

lemma database_delete_known:
  assumes "distinct (map Session.session_id db)" and "r \<in> set db"
    and "Session.session_id r = k" and "k \<noteq> []"
  shows "DatabaseSessionStore_delete_session (Some k) db
           = (True, map (\<lambda>s. if Session.session_id s = k then deactivate s else s) db)"
proof -
  have f: "find (has_id (Some k)) db = Some r"
    using find_unique_row [OF assms(1,2), of "\<lambda>_. True"] assms(3) by (simp add: has_id_eq)
  have "update_first (has_id (Some k)) deactivate db
      = map (\<lambda>s. if Session.session_id s = k then deactivate s else s) db"
    using update_first_unique [OF assms(1), of "has_id (Some k)" k deactivate]
    by (simp add: has_id_def)
  with f assms(4) show ?thesis
    by (simp add: DatabaseSessionStore_delete_session_def py_not_def)
qed

lemma inactive_row_not_found:
  assumes "distinct (map Session.session_id db)" and "r \<in> set db"
    and "Session.session_id r = k" and "\<not> is_active r"
  shows "find (active_with_id (Some k)) db = None"
  using find_unique_row [OF assms(1,2), of is_active] assms(3,4)
  by (simp add: active_with_id_eq)

lemma known_row_found:
  assumes "distinct (map Session.session_id db)" and "r \<in> set db"
    and "Session.session_id r = k"
  shows "find (has_id (Some k)) db = Some r"
  using find_unique_row [OF assms(1,2), of "\<lambda>_. True"] assms(3) by (simp add: has_id_eq)

lemma dict_of_touched:
  "dict_of_row zone (r\<lparr>Session.last_accessed := now\<rparr>)
     = (dict_of_row zone r)\<lparr>session_dict.last_accessed := now + zone\<rparr>"
  by (simp add: dict_of_row_def)

lemma dict_of_extended:
  "dict_of_row zone (Session_extend_session m now r)
     = (dict_of_row zone r)\<lparr>session_dict.expires_at := now + zone + timedelta_minutes m,
                       session_dict.last_accessed := now + zone\<rparr>"
  by (simp add: dict_of_row_def Session_extend_session_def)

lemma related_get:
  assumes rel: "related zone Z now st db"
  shows "fst (SessionStore_get_session sid (now + zone) st)
           = map_option (local_dict zone) (fst (DatabaseSessionStore_get_session sid now db))
       \<and> (\<exists>Z'. related zone Z' now (snd (SessionStore_get_session sid (now + zone) st))
                  (snd (DatabaseSessionStore_get_session sid now db)))"
proof (cases "py_not sid")
  case True
  with rel show ?thesis
    by (auto simp: SessionStore_get_session_def DatabaseSessionStore_get_session_def)
next
  case False
  then obtain k where k: "sid = Some k" "k \<noteq> []"
    by (auto simp: py_not_def split: option.splits)
  note rd = relatedD [OF rel]
  show ?thesis
  proof (cases "k \<in> Session.session_id ` set db")
    case False
    with rd(3) have "map_of (sessions st) k = None" by (simp add: map_of_held_unknown)
    with k unknown_id(2) [OF False] rel show ?thesis
      by (auto simp: memory_get_cases DatabaseSessionStore_get_session_def py_not_def)
  next
    case True
    then obtain r where r: "r \<in> set db" "Session.session_id r = k" by auto
    note dbc = get_session_db_cases [OF rd(1) r k(2), of now]
    have mo: "map_of (sessions st) k = (if kept Z r then Some (dict_of_row zone r) else None)"
      using map_of_held [OF rd(1) r(1), of zone Z] r(2) rd(3) by simp
    show ?thesis
    proof (cases "is_active r \<and> now \<le> Session.expires_at r")
      case True
      with dbc have db: "DatabaseSessionStore_get_session (Some k) now db
              = (Some \<lparr>session_data.user_email = Session.user_email r,
                       session_data.created_at = Session.created_at r,
                       session_data.expires_at = Session.expires_at r,
                       session_data.last_accessed = now,
                       session_data.session_id = k\<rparr>,
                 map (\<lambda>s. if Session.session_id s = k
                           then s\<lparr>Session.last_accessed := now\<rparr> else s) db)" by blast
      from True mo have mem: "SessionStore_get_session (Some k) (now + zone) st
          = (Some ((dict_of_row zone r)\<lparr>session_dict.last_accessed := now + zone\<rparr>),
             st\<lparr>sessions := AList.update k
                   ((dict_of_row zone r)\<lparr>session_dict.last_accessed := now + zone\<rparr>)
                   (sessions st)\<rparr>)"
        using k(2) by (simp add: memory_get_cases kept_def dict_of_row_def)
      have "related zone Z now
           (st\<lparr>sessions := AList.update (Session.session_id r)
                 (dict_of_row zone (r\<lparr>Session.last_accessed := now\<rparr>)) (sessions st)\<rparr>)
           (map (\<lambda>s. if Session.session_id s = Session.session_id r
                      then s\<lparr>Session.last_accessed := now\<rparr> else s) db)"
        using rel r(1) True by (intro related_update) simp_all
      with db mem k r(2) show ?thesis
        by (auto simp: dict_of_touched local_dict_def dict_of_row_def)
    next
      case False
      with dbc have db: "DatabaseSessionStore_get_session (Some k) now db
              = (None, map (\<lambda>s. if Session.session_id s = k then deactivate s else s) db)"
        by blast
      have exp: "kept Z r \<Longrightarrow> now > Session.expires_at r"
        using False rd(5) [OF r(1)] r(2) by (auto simp: kept_def)
      have mem: "SessionStore_get_session (Some k) (now + zone) st
          = (None, st\<lparr>sessions := AList.delete k (sessions st)\<rparr>)"
      proof (cases "kept Z r")
        case True
        with exp mo k(2) show ?thesis by (simp add: memory_get_cases dict_of_row_def)
      next
        case False
        with mo have "k \<notin> fst ` set (sessions st)" by (simp add: map_of_eq_None_iff)
        then have "AList.delete k (sessions st) = sessions st" by (rule delete_id)
        with False mo k(2) show ?thesis by (simp add: memory_get_cases)
      qed
      from related_delete [OF rel, of k] db mem k show ?thesis by auto
    qed
  qed
qed

lemma related_extend:
  assumes rel: "related zone Z now st db"
    and adm: "\<not> expired_in_memory sid (now + zone) st"
  shows "fst (SessionStore_extend_session sid m (now + zone) st)
           = fst (DatabaseSessionStore_extend_session sid m now db)
       \<and> related zone Z now (snd (SessionStore_extend_session sid m (now + zone) st))
                  (snd (DatabaseSessionStore_extend_session sid m now db))"
proof -
  note rd = relatedD [OF rel]
  show ?thesis
  proof (cases sid)
    case None
    with rel show ?thesis
      by (simp add: SessionStore_extend_session_def DatabaseSessionStore_extend_session_def
          in_sessions_def py_not_def)
  next
    case (Some k)
    show ?thesis
    proof (cases "k \<in> Session.session_id ` set db")
      case False
      with rd(3) have "map_of (sessions st) k = None" by (simp add: map_of_held_unknown)
      with Some unknown_id(2) [OF False] rel show ?thesis
        by (simp add: memory_extend_cases DatabaseSessionStore_extend_session_def)
    next
      case True
      then obtain r where r: "r \<in> set db" "Session.session_id r = k" by auto
      from True rd(2) have k: "k \<noteq> []" by metis
      have mo: "map_of (sessions st) k = (if kept Z r then Some (dict_of_row zone r) else None)"
        using map_of_held [OF rd(1) r(1), of zone Z] r(2) rd(3) by simp
      show ?thesis
      proof (cases "kept Z r")
        case False
        then have na: "\<not> is_active r" by (simp add: kept_def)
        from False mo Some inactive_row_not_found [OF rd(1) r na] rel show ?thesis
          by (simp add: memory_extend_cases DatabaseSessionStore_extend_session_def)
      next
        case True
        with mo adm Some have live: "now \<le> Session.expires_at r"
          by (simp add: expired_in_memory_def dict_of_row_def)
        with rd(5) [OF r(1)] r(2) True have act: "is_active r"
          by (auto simp: kept_def)
        from live have nexp: "\<not> is_expired r now" by (simp add: is_expired_def)
        note db = database_extend_live [OF rd(1) r(1,2) k act nexp, of m]
        from True mo have mem: "SessionStore_extend_session (Some k) m (now + zone) st
            = (True, st\<lparr>sessions := AList.update k
                       (dict_of_row zone (Session_extend_session m now r)) (sessions st)\<rparr>)"
          by (simp add: memory_extend_cases dict_of_extended)
        have "related zone Z now
             (st\<lparr>sessions := AList.update (Session.session_id r)
                   (dict_of_row zone (Session_extend_session m now r)) (sessions st)\<rparr>)
             (map (\<lambda>s. if Session.session_id s = Session.session_id r
                        then Session_extend_session m now s else s) db)"
          using rel r(1) act by (intro related_update) (simp_all add: Session_extend_session_def)
        with db mem Some r(2) show ?thesis by simp
      qed
    qed
  qed
qed

lemma related_revoke:
  assumes rel: "related zone Z now st db"
    and adm: "in_sessions sid st \<or> find (has_id sid) db = None"
  shows "fst (SessionStore_delete_session sid st)
           = fst (DatabaseSessionStore_delete_session sid db)
       \<and> (\<exists>Z'. related zone Z' now (snd (SessionStore_delete_session sid st))
                  (snd (DatabaseSessionStore_delete_session sid db)))"
proof -
  note rd = relatedD [OF rel]
  show ?thesis
  proof (cases sid)
    case None
    with rel show ?thesis
      by (auto simp: SessionStore_delete_session_def DatabaseSessionStore_delete_session_def
          py_not_def)
  next
    case (Some k)
    show ?thesis
    proof (cases "k \<in> Session.session_id ` set db")
      case False
      with rd(3) have "map_of (sessions st) k = None" by (simp add: map_of_held_unknown)
      with Some unknown_id(1) [OF False] rel show ?thesis
        by (auto simp: memory_delete_cases DatabaseSessionStore_delete_session_def)
    next
      case True
      then obtain r where r: "r \<in> set db" "Session.session_id r = k" by auto
      from True rd(2) have k: "k \<noteq> []" by metis
      note db = database_delete_known [OF rd(1) r(1,2) k]
      from known_row_found [OF rd(1) r] adm Some
      obtain s where "map_of (sessions st) k = Some s"
        by (auto simp: in_sessions_def)
      then have mem: "SessionStore_delete_session (Some k) st
          = (True, st\<lparr>sessions := AList.delete k (sessions st)\<rparr>)"
        by (simp add: memory_delete_cases)
      from related_delete [OF rel, of k] db mem Some show ?thesis by auto
    qed
  qed
qed

lemma related_create:
  assumes rel: "related zone Z now st db"
    and fresh: "uuid \<noteq> []" "find (has_id (Some uuid)) db = None"
    and fits: "length uuid \<le> 255" "length e \<le> 255"
  shows "\<exists>db' Z'. DatabaseSessionStore_create_session uuid e (Some ttl) now db = Inr (uuid, db')
           \<and> related zone Z' now
                (snd (SessionStore_create_session uuid e ttl (now + zone) st)) db'"
    and "fst (SessionStore_create_session uuid e ttl (now + zone) st) = uuid"
proof -
  note rd = relatedD [OF rel]
  let ?row = "\<lparr>Session.id = Suc (length db), Session.session_id = uuid,
               Session.user_email = e, Session.created_at = now,
               Session.expires_at = now + timedelta_minutes ttl,
               Session.last_accessed = now, is_active = True\<rparr>"
  let ?new = "\<lparr>session_dict.user_email = e, session_dict.created_at = now + zone,
               session_dict.expires_at = now + zone + timedelta_minutes ttl,
               session_dict.last_accessed = now + zone\<rparr>"
  let ?st1 = "st\<lparr>sessions := AList.update uuid ?new (sessions st)\<rparr>"
  from fresh(2) have nid: "uuid \<notin> Session.session_id ` set db"
    by (auto simp: find_None_iff has_id_def)
  with rd(3) held_keys [of zone Z db] have "uuid \<notin> fst ` set (sessions st)" by auto
  then have upd: "AList.update uuid ?new (sessions st) = sessions st @ [(uuid, ?new)]"
    by (rule update_absent)
  have "related zone Z now ?st1 (db @ [?row])"
  proof (rule relatedI)
    show "distinct (map Session.session_id (db @ [?row]))" using rd(1) nid by simp
    show "[] \<notin> Session.session_id ` set (db @ [?row])" using rd(2) fresh(1) by auto
    show "Z \<subseteq> Session.session_id ` set (db @ [?row])" using rd(4) by auto
    show "sessions ?st1 = held zone Z (db @ [?row])"
      using upd rd(3) by (simp add: held_def kept_def entry_of_row_def dict_of_row_def)
    show "\<not> is_active s \<and> Session.expires_at s < now"
      if "s \<in> set (db @ [?row])" "Session.session_id s \<in> Z" for s
    proof (cases "s \<in> set db")
      case True
      with that(2) rd(5) show ?thesis by blast
    next
      case False
      with that(1) have "Session.session_id s = uuid" by auto
      with that(2) rd(4) nid show ?thesis by blast
    qed
  qed
  from related_cleanup [OF this] obtain Z' where
    "related zone Z' now (SessionStore_cleanup_expired_sessions (now + zone) ?st1)
       (DatabaseSessionStore_cleanup_expired_sessions now (db @ [?row]))" ..
  with fresh(2) fits
  show "\<exists>db' Z'. DatabaseSessionStore_create_session uuid e (Some ttl) now db
             = Inr (uuid, db')
           \<and> related zone Z' now
                (snd (SessionStore_create_session uuid e ttl (now + zone) st)) db'"
    by (auto simp: DatabaseSessionStore_create_session_def SessionStore_create_session_def Let_def)
  show "fst (SessionStore_create_session uuid e ttl (now + zone) st) = uuid"
    by (simp add: SessionStore_create_session_def Let_def)
qed

subsection \<open>Steps and runs\<close>

lemma step_related:
  assumes ord: "\<And>now db xs. mset (row_order now db xs) = mset xs"
    and rel: "related zone Z now st db" and adm: "admissible zone now op st db"
  shows "same_result zone (fst (SessionStore_step (now + zone) op st))
           (fst (DatabaseSessionStore_step row_order now op db))
       \<and> (\<exists>Z'. related zone Z' now (snd (SessionStore_step (now + zone) op st))
                  (snd (DatabaseSessionStore_step row_order now op db)))"
proof -
  from adm have tr: "op_transmittable op" by (simp add: admissible_def)
  show ?thesis
  proof (cases op)
    case (Create uuid e ttl)
    with adm have fresh: "uuid \<noteq> []" "find (has_id (Some uuid)) db = None"
      and fits: "length uuid \<le> 255" "length e \<le> 255"
      by (simp_all add: admissible_def)
    from related_create [OF rel fresh fits, of ttl] Create tr show ?thesis
      by (auto simp: SessionStore_step_def DatabaseSessionStore_step_def split: prod.splits)
  next
    case (Get sid)
    with related_get [OF rel, of sid] tr show ?thesis
      by (auto simp: SessionStore_step_def DatabaseSessionStore_step_def split: prod.splits)
  next
    case (Extend sid m)
    with adm have "\<not> expired_in_memory sid (now + zone) st" by (simp add: admissible_def)
    from related_extend [OF rel this, of m] Extend tr show ?thesis
      by (auto simp: SessionStore_step_def DatabaseSessionStore_step_def split: prod.splits)
  next
    case (Revoke sid)
    with adm have "in_sessions sid st \<or> find (has_id sid) db = None"
      by (simp add: admissible_def)
    from related_revoke [OF rel this] Revoke tr show ?thesis
      by (auto simp: SessionStore_step_def DatabaseSessionStore_step_def split: prod.splits)
  next
    case (ListByPrincipal e)
    with listing_related [OF rel, of e] rel tr ord show ?thesis
      by (auto simp: SessionStore_step_def DatabaseSessionStore_step_def)
  next
    case (RevokeAllByPrincipal e)
    with adm have a: "list_all (\<lambda>(k, s). session_dict.user_email s = e \<longrightarrow>
                        find (active_with_id (Some k)) db \<noteq> None) (sessions st)"
      by (simp add: admissible_def)
    from related_revoke_all [OF rel a] count_revoke_all [OF rel a] RevokeAllByPrincipal tr
    show ?thesis
      by (auto simp: SessionStore_step_def DatabaseSessionStore_step_def split: prod.splits)
  qed
qed

lemma run_related:
  assumes ord: "\<And>now db xs. mset (row_order now db xs) = mset xs"
  shows "related zone Z t0 st db \<Longrightarrow> admissible_run row_order zone t0 ops st db \<Longrightarrow>
   list_all2 (same_result zone) (SessionStore_run (local_time zone ops) st)
     (DatabaseSessionStore_run row_order ops db)"
proof (induction ops arbitrary: Z t0 st db)
  case Nil
  then show ?case by (simp add: local_time_def)
next
  case (Cons a ops)
  obtain now op where a: "a = (now, op)" by (cases a)
  from Cons.prems(2) a have t: "t0 \<le> now" and adm: "admissible zone now op st db"
    and rest: "admissible_run row_order zone now ops
                 (snd (SessionStore_step (now + zone) op st))
                 (snd (DatabaseSessionStore_step row_order now op db))"
    by simp_all
  from related_later [OF Cons.prems(1) t] have rel: "related zone Z now st db" .
  from step_related [where row_order = row_order, OF ord rel adm] obtain Z' where
    res: "same_result zone (fst (SessionStore_step (now + zone) op st))
           (fst (DatabaseSessionStore_step row_order now op db))"
    and rel': "related zone Z' now (snd (SessionStore_step (now + zone) op st))
                  (snd (DatabaseSessionStore_step row_order now op db))"
    by blast
  from Cons.IH [OF rel' rest] res a show ?case by (simp add: local_time_def)
qed

text \<open>
  C2 (amended). Started empty and driven by the same operations, the in-memory store
  reading the local clock and the database store the clock in UTC, the two stores
  return the same results in the sense of \<^const>\<open>same_result\<close>: the same identifiers,
  truth values and counts, the same records with time stamps denoting the same instants
  (the database lookup carrying the key \<^verbatim>\<open>session_id\<close> besides), and listings with the
  same entries in whatever order the database engine returns its rows. This holds on
  every run that is \<^const>\<open>admissible_run\<close>: the clock does not go back; created
  identifiers are fresh, not empty and, like the principals, at most 255 characters
  long; no text contains the NUL character; extend is not applied to a record the
  in-memory store holds past its expiry; revoke is not applied to an identifier whose
  row exists while the in-memory store no longer holds its record; revoke-all is not
  applied while the in-memory store holds a record of that principal whose row is
  already deactivated. Lookups and listings are unrestricted, and sessions may expire,
  be revoked and be swept during the run.
\<close>

theorem C2_backends_agree:
  assumes "\<And>now db xs. mset (row_order now db xs) = mset xs"
    and "admissible_run row_order zone t0 ops (SessionStore_init (t0 + zone)) []"
  shows "list_all2 (same_result zone)
           (SessionStore_run (local_time zone ops) (SessionStore_init (t0 + zone)))
           (DatabaseSessionStore_run row_order ops [])"
proof -
  have "related zone {} t0 (SessionStore_init (t0 + zone)) []"
    by (simp add: related_def SessionStore_init_def held_def)
  from run_related [where row_order = row_order, OF assms(1) this assms(2)] show ?thesis .
qed

text \<open>
  C2, witness. A run with all six operations, the database rows listed in reverse and
  the local clock an hour ahead of UTC. During the run Bob's one-minute session expires
  and is swept by the database store only, a revoked session is extended in vain, and
  revoke-all is called for a principal whose only row is expired and swept.
\<close>

theorem C2_backends_agree_witness:
  "(\<forall>now db xs. mset (reverse_order now db xs) = mset xs)
   \<and> admissible_run reverse_order 3600 0 busy_day (SessionStore_init (0 + 3600)) []
   \<and> list_all2 (same_result 3600)
        (SessionStore_run (local_time 3600 busy_day) (SessionStore_init (0 + 3600)))
        (DatabaseSessionStore_run reverse_order busy_day [])
   \<and> SessionStore_run (local_time 3600 busy_day) (SessionStore_init (0 + 3600))
       = [Created ''s1'', Created ''s2'',
          Got (Some \<lparr>session_dict.user_email = ''alice@example.com'',
                     session_dict.created_at = 3600, session_dict.expires_at = 5400,
                     session_dict.last_accessed = 3610\<rparr>),
          Done True, Created ''s3'', Got None,
          Listed [\<lparr>session_summary.session_id = ''s1'', session_summary.created_at = 3600,
                   session_summary.last_accessed = 3620, session_summary.expires_at = 7220\<rparr>,
                  \<lparr>session_summary.session_id = ''s3'', session_summary.created_at = 3700,
                   session_summary.last_accessed = 3700, session_summary.expires_at = 5500\<rparr>],
          Done True, Done False, Counted 1, Listed [], Created ''s4'', Counted 0, Counted 1]
   \<and> DatabaseSessionStore_run reverse_order busy_day []
       = [Created ''s1'', Created ''s2'',
          Got (Some \<lparr>session_data.user_email = ''alice@example.com'',
                     session_data.created_at = 0, session_data.expires_at = 1800,
                     session_data.last_accessed = 10, session_data.session_id = ''s1''\<rparr>),
          Done True, Created ''s3'', Got None,
          Listed [\<lparr>session_summary.session_id = ''s3'', session_summary.created_at = 100,
                   session_summary.last_accessed = 100, session_summary.expires_at = 1900\<rparr>,
                  \<lparr>session_summary.session_id = ''s1'', session_summary.created_at = 0,
                   session_summary.last_accessed = 20, session_summary.expires_at = 3620\<rparr>],
          Done True, Done False, Counted 1, Listed [], Created ''s4'', Counted 0, Counted 1]"
proof -
  have o: "mset (reverse_order now db xs) = mset xs" for now db xs
    by (simp add: reverse_order_def)
  have a: "admissible_run reverse_order 3600 0 busy_day (SessionStore_init (0 + 3600)) []"
    by code_simp
  have m: "SessionStore_run (local_time 3600 busy_day) (SessionStore_init (0 + 3600))
       = [Created ''s1'', Created ''s2'',
          Got (Some \<lparr>session_dict.user_email = ''alice@example.com'',
                     session_dict.created_at = 3600, session_dict.expires_at = 5400,
                     session_dict.last_accessed = 3610\<rparr>),
          Done True, Created ''s3'', Got None,
          Listed [\<lparr>session_summary.session_id = ''s1'', session_summary.created_at = 3600,
                   session_summary.last_accessed = 3620, session_summary.expires_at = 7220\<rparr>,
                  \<lparr>session_summary.session_id = ''s3'', session_summary.created_at = 3700,
                   session_summary.last_accessed = 3700, session_summary.expires_at = 5500\<rparr>],
          Done True, Done False, Counted 1, Listed [], Created ''s4'', Counted 0, Counted 1]"
    by code_simp
  have d: "DatabaseSessionStore_run reverse_order busy_day []
       = [Created ''s1'', Created ''s2'',
          Got (Some \<lparr>session_data.user_email = ''alice@example.com'',
                     session_data.created_at = 0, session_data.expires_at = 1800,
                     session_data.last_accessed = 10, session_data.session_id = ''s1''\<rparr>),
          Done True, Created ''s3'', Got None,
          Listed [\<lparr>session_summary.session_id = ''s3'', session_summary.created_at = 100,
                   session_summary.last_accessed = 100, session_summary.expires_at = 1900\<rparr>,
                  \<lparr>session_summary.session_id = ''s1'', session_summary.created_at = 0,
                   session_summary.last_accessed = 20, session_summary.expires_at = 3620\<rparr>],
          Done True, Done False, Counted 1, Listed [], Created ''s4'', Counted 0, Counted 1]"
    by code_simp
  from o a C2_backends_agree [where row_order = reverse_order, OF o a] m d
  show ?thesis by blast
qed

text \<open>
  C2, counterexample. As stated, for every sequence of operations, the claim fails:
  each restriction of the amended claim is needed. Revoking twice: the second
  revocation returns \<open>False\<close> in memory and \<open>True\<close> from the table. Extending after
  expiry: \<open>True\<close> in memory, \<open>False\<close> from the table. Revoking all of Bob's sessions
  after his session expired and the database store swept it on the next create, while
  the in-memory store still holds it: 1 in memory, 0 from the table. A principal of 256
  characters: created in memory, \<^verbatim>\<open>DataError\<close> from the table. A principal containing
  NUL: an empty listing in memory, \<^verbatim>\<open>ValueError\<close> from the driver. An empty identifier:
  revoked in memory, refused by the database store. A clock set back after a sweep: the
  record in memory, nothing from the table. And on an admissible run the results are
  the same only up to the order of a listing and the zone of the time stamps: the last
  two conjuncts show the run \<^const>\<open>two_devices\<close> with the rows listed in reverse and
  the local clock an hour ahead.
\<close>

theorem C2_backends_differ_counterexample:
  "SessionStore_run revoke_twice (SessionStore_init 0) = [Created ''s1'', Done True, Done False]
   \<and> DatabaseSessionStore_run insertion_order revoke_twice []
     = [Created ''s1'', Done True, Done True]
   \<and> SessionStore_run extend_expired (SessionStore_init 0) = [Created ''s1'', Done True]
   \<and> DatabaseSessionStore_run insertion_order extend_expired []
     = [Created ''s1'', Done False]
   \<and> SessionStore_run revoke_all_after_sweep (SessionStore_init 0)
     = [Created ''s1'', Created ''s2'', Counted 1]
   \<and> DatabaseSessionStore_run insertion_order revoke_all_after_sweep []
     = [Created ''s1'', Created ''s2'', Counted 0]
   \<and> SessionStore_run long_principal (SessionStore_init 0) = [Created ''s1'']
   \<and> DatabaseSessionStore_run insertion_order long_principal [] = [Raised DataError]
   \<and> SessionStore_run nul_in_principal (SessionStore_init 0) = [Listed []]
   \<and> DatabaseSessionStore_run insertion_order nul_in_principal [] = [Raised ValueError]
   \<and> SessionStore_run empty_identifier (SessionStore_init 0) = [Created [], Done True]
   \<and> DatabaseSessionStore_run insertion_order empty_identifier [] = [Created [], Done False]
   \<and> SessionStore_run clock_set_back (SessionStore_init 0)
     = [Created ''s1'', Created ''s2'',
        Got (Some \<lparr>session_dict.user_email = ''bob@example.com'',
                   session_dict.created_at = 0, session_dict.expires_at = 60,
                   session_dict.last_accessed = 30\<rparr>)]
   \<and> DatabaseSessionStore_run insertion_order clock_set_back []
     = [Created ''s1'', Created ''s2'', Got None]
   \<and> \<not> list_all2 (same_result 0) (SessionStore_run revoke_twice (SessionStore_init 0))
         (DatabaseSessionStore_run insertion_order revoke_twice [])
   \<and> \<not> list_all2 (same_result 0) (SessionStore_run extend_expired (SessionStore_init 0))
         (DatabaseSessionStore_run insertion_order extend_expired [])
   \<and> \<not> list_all2 (same_result 0) (SessionStore_run revoke_all_after_sweep (SessionStore_init 0))
         (DatabaseSessionStore_run insertion_order revoke_all_after_sweep [])
   \<and> \<not> list_all2 (same_result 0) (SessionStore_run long_principal (SessionStore_init 0))
         (DatabaseSessionStore_run insertion_order long_principal [])
   \<and> \<not> list_all2 (same_result 0) (SessionStore_run nul_in_principal (SessionStore_init 0))
         (DatabaseSessionStore_run insertion_order nul_in_principal [])
   \<and> \<not> list_all2 (same_result 0) (SessionStore_run empty_identifier (SessionStore_init 0))
         (DatabaseSessionStore_run insertion_order empty_identifier [])
   \<and> \<not> list_all2 (same_result 0) (SessionStore_run clock_set_back (SessionStore_init 0))
         (DatabaseSessionStore_run insertion_order clock_set_back [])
   \<and> SessionStore_run (local_time 3600 two_devices) (SessionStore_init 3600)
     = [Created ''s1'', Created ''s2'',
        Got (Some \<lparr>session_dict.user_email = ''alice@example.com'',
                   session_dict.created_at = 3600, session_dict.expires_at = 5400,
                   session_dict.last_accessed = 3610\<rparr>),
        Listed [\<lparr>session_summary.session_id = ''s1'', session_summary.created_at = 3600,
                 session_summary.last_accessed = 3610, session_summary.expires_at = 5400\<rparr>,
                \<lparr>session_summary.session_id = ''s2'', session_summary.created_at = 3605,
                 session_summary.last_accessed = 3605, session_summary.expires_at = 5405\<rparr>]]
   \<and> DatabaseSessionStore_run reverse_order two_devices []
     = [Created ''s1'', Created ''s2'',
        Got (Some \<lparr>session_data.user_email = ''alice@example.com'',
                   session_data.created_at = 0, session_data.expires_at = 1800,
                   session_data.last_accessed = 10, session_data.session_id = ''s1''\<rparr>),
        Listed [\<lparr>session_summary.session_id = ''s2'', session_summary.created_at = 5,
                 session_summary.last_accessed = 5, session_summary.expires_at = 1805\<rparr>,
                \<lparr>session_summary.session_id = ''s1'', session_summary.created_at = 0,
                 session_summary.last_accessed = 10, session_summary.expires_at = 1800\<rparr>]]"
  by code_simp

section \<open>The sibling paths of C1 and C4\<close>

text \<open>
  Where one store misses a claim, the other keeps it. The database extension of a
  record that is revoked or expired returns \<open>False\<close> and writes nothing (compare C1);
  the in-memory revocation of an identifier never returns \<open>True\<close> twice in a row
  (compare C4).
\<close>

lemma database_extend_dead_is_noop:
  assumes "distinct (map Session.session_id db)" and "r \<in> set db"
    and "Session.session_id r = k" and "\<not> (is_active r \<and> \<not> is_expired r now)"
  shows "DatabaseSessionStore_extend_session (Some k) m now db = (False, db)"
proof -
  have "find (active_with_id (Some k)) db = (if is_active r then Some r else None)"
    using find_unique_row [OF assms(1,2), of is_active] assms(3)
    by (simp add: active_with_id_eq)
  with assms(4) show ?thesis
    by (simp add: DatabaseSessionStore_extend_session_def)
qed

lemma memory_second_revoke_returns_false:
  "fst (SessionStore_delete_session sid (snd (SessionStore_delete_session sid st))) = False"
  by (cases sid) (simp_all add: SessionStore_delete_session_def in_sessions_def delete_conv')

end
